theory Spec2Isabelle
  imports Main "HOL-Library.AList"
begin

section \<open>Data model (types.ts)\<close>

text \<open>
  Times and durations are JavaScript numbers holding whole milliseconds; they are
  modelled as \<open>int\<close>.  An instant (\<open>Date\<close>, or the ISO string written by
  \<open>toISOString\<close>) is its number of milliseconds since the epoch.  The calendar date
  string \<open>YYYY-MM-DD\<close> that \<open>toISOString().split('T')[0]\<close> yields is represented by
  the UTC day number of the instant: two instants have the same date string exactly when
  they have the same day number.

  A \<open>LanguageTime\<close> object and a \<open>Map\<close> are association lists in insertion order
  with pairwise different keys: assigning to a present key keeps its position, assigning
  to an absent key appends (\<open>AList.update\<close>).  Language ids are taken not to be
  array indices or names inherited from \<open>Object.prototype\<close>.

  The records keep the field names of the interfaces.  Where two interfaces share a
  field name, the fields of \<open>RepoSummary\<close> carry the prefix \<open>sum\<close>, those of
  \<open>DailyData\<close> the prefix \<open>day\<close>, those of \<open>GitRepoInfo\<close> the prefix \<open>git\<close>;
  \<open>CurrentRepoInfo.remoteUrl\<close> is \<open>curRemoteUrl\<close> and \<open>CurrentRepoInfo.startTime\<close>
  is \<open>repoStartTime\<close>.
\<close>

type_synonym LanguageTime = "(string \<times> int) list"

record RepoActivity =
  repoPath :: string
  repoName :: string
  branchName :: string
  remoteUrl :: "string option"
  timeSpent :: int
  filesEdited :: "string list"
  languages :: LanguageTime

record TrackingSession =
  sessionId :: string
  startTime :: int
  endTime :: "int option"
  totalDuration :: int
  activeTime :: int
  idleTime :: int
  repositories :: "RepoActivity list"

record RepoSummary =
  sumRepoName :: string
  sumRepoPath :: string
  branchesWorkedOn :: "string list"
  sumTotalTime :: int
  sumFilesEdited :: "string list"
  sumLanguages :: LanguageTime

record DailyData =
  date :: int
  totalTime :: int
  dayActiveTime :: int
  dayIdleTime :: int
  sessions :: "TrackingSession list"
  dayRepositories :: "RepoSummary list"
  dayLanguages :: LanguageTime
  emailSent :: bool
  emailSentAt :: "int option"

record CurrentRepoInfo =
  path :: string
  name :: string
  branch :: string
  curRemoteUrl :: "string option"
  activeFile :: "string option"
  language :: "string option"
  repoStartTime :: int

record TrackingState =
  isTracking :: bool
  sessionStart :: int
  lastActivityTime :: int
  currentRepo :: "CurrentRepoInfo option"
  isWindowFocused :: bool
  isIdle :: bool
  sessionActiveTime :: int
  sessionIdleTime :: int
  idleStartTime :: "int option"

record TrackingConfig =
  idleThresholdMinutes :: int
  heartbeatIntervalSeconds :: int

record GitRepoInfo =
  gitPath :: string
  gitName :: string
  gitBranch :: string
  gitRemoteUrl :: "string option"

definition msPerDay :: int where
  "msPerDay = 86400000"

text \<open>\<open>getTodayDateString\<close> at the instant \<open>now\<close>, and the date part of an ISO string.\<close>

definition dateString :: "int \<Rightarrow> int" where
  "dateString t = t div msPerDay"

section \<open>Storage service (storage.ts)\<close>

text \<open>\<open>obj[k] = (obj[k] || 0) + t\<close> on a \<open>LanguageTime\<close> object.\<close>

definition addLanguageTime :: "LanguageTime \<Rightarrow> string \<times> int \<Rightarrow> LanguageTime" where
  "addLanguageTime acc e =
     AList.update (fst e) ((case map_of acc (fst e) of Some v \<Rightarrow> v | None \<Rightarrow> 0) + snd e) acc"

text \<open>\<open>for (const [l, t] of Object.entries(src)) acc[l] = (acc[l] || 0) + t\<close>.\<close>

definition mergeLanguages :: "LanguageTime \<Rightarrow> LanguageTime \<Rightarrow> LanguageTime" where
  "mergeLanguages acc src = foldl addLanguageTime acc src"

text \<open>\<open>if (!xs.includes(x)) xs.push(x)\<close>.\<close>

definition pushIfAbsent :: "string list \<Rightarrow> string \<Rightarrow> string list" where
  "pushIfAbsent xs x = (if x \<in> set xs then xs else xs @ [x])"

text \<open>The two branches of the repository aggregation in \<open>recalculateTotals\<close>.\<close>

definition mergeIntoSummary :: "RepoSummary \<Rightarrow> RepoActivity \<Rightarrow> RepoSummary" where
  "mergeIntoSummary existing repo =
     existing\<lparr> sumTotalTime := sumTotalTime existing + timeSpent repo,
               branchesWorkedOn := pushIfAbsent (branchesWorkedOn existing) (branchName repo),
               sumFilesEdited := foldl pushIfAbsent (sumFilesEdited existing) (filesEdited repo),
               sumLanguages := mergeLanguages (sumLanguages existing) (languages repo) \<rparr>"

definition newSummary :: "RepoActivity \<Rightarrow> RepoSummary" where
  "newSummary repo =
     \<lparr> sumRepoName = repoName repo, sumRepoPath = repoPath repo,
       branchesWorkedOn = [branchName repo], sumTotalTime = timeSpent repo,
       sumFilesEdited = filesEdited repo, sumLanguages = languages repo \<rparr>"

definition aggregateRepo ::
  "(string \<times> RepoSummary) list \<Rightarrow> RepoActivity \<Rightarrow> (string \<times> RepoSummary) list" where
  "aggregateRepo repoMap repo =
     (case map_of repoMap (repoPath repo) of
        Some existing \<Rightarrow> AList.update (repoPath repo) (mergeIntoSummary existing repo) repoMap
      | None \<Rightarrow> AList.update (repoPath repo) (newSummary repo) repoMap)"

text \<open>The language map of one session: the \<open>reduce\<close> over its repositories.\<close>

definition sessionLanguages :: "TrackingSession \<Rightarrow> LanguageTime" where
  "sessionLanguages session =
     foldl (\<lambda>acc repo. mergeLanguages acc (languages repo)) [] (repositories session)"

text \<open>One iteration of the loop over \<open>data.sessions\<close>; the state of the loop is the
  record being rebuilt together with the local \<open>repoMap\<close>.\<close>

definition recalcSession ::
  "DailyData \<times> (string \<times> RepoSummary) list \<Rightarrow> TrackingSession
     \<Rightarrow> DailyData \<times> (string \<times> RepoSummary) list" where
  "recalcSession acc session =
     (case acc of (data, repoMap) \<Rightarrow>
        (data\<lparr> totalTime := totalTime data + totalDuration session,
               dayActiveTime := dayActiveTime data + activeTime session,
               dayIdleTime := dayIdleTime data + idleTime session,
               dayLanguages := mergeLanguages (dayLanguages data) (sessionLanguages session) \<rparr>,
         foldl aggregateRepo repoMap (repositories session)))"

definition recalculateTotals :: "DailyData \<Rightarrow> DailyData" where
  "recalculateTotals data =
     (case foldl recalcSession
             (data\<lparr> totalTime := 0, dayActiveTime := 0, dayIdleTime := 0, dayLanguages := [] \<rparr>, [])
             (sessions data) of
        (data', repoMap) \<Rightarrow> data'\<lparr> dayRepositories := map snd repoMap \<rparr>)"

text \<open>\<open>Array.prototype.findIndex\<close>; \<open>None\<close> is the result \<open>-1\<close>.\<close>

fun findIndex :: "('a \<Rightarrow> bool) \<Rightarrow> 'a list \<Rightarrow> nat option" where
  "findIndex p [] = None"
| "findIndex p (x # xs) =
     (if p x then Some 0 else (case findIndex p xs of None \<Rightarrow> None | Some i \<Rightarrow> Some (Suc i)))"

text \<open>The body of \<open>updateSession\<close> on the record returned by \<open>getTodayData\<close>.\<close>

definition upsertSession :: "TrackingSession \<Rightarrow> DailyData \<Rightarrow> DailyData" where
  "upsertSession session data =
     recalculateTotals
       (case findIndex (\<lambda>s. sessionId s = sessionId session) (sessions data) of
          Some existingIndex \<Rightarrow> data\<lparr> sessions := (sessions data)[existingIndex := session] \<rparr>
        | None \<Rightarrow> data\<lparr> sessions := sessions data @ [session] \<rparr>)"


text \<open>
  The storage directory holds one file per date; a file is either unreadable (missing
  permissions, malformed JSON) or holds a record.  \<open>writeFails\<close> says whether
  \<open>writeFileSync\<close> throws (disk full, permissions).  The pending debounce timer is
  represented by the record its callback will write.
\<close>

datatype fileContent = Unreadable | Json DailyData

record StorageService =
  currentDayData :: "DailyData option"
  saveDebounceTimer :: "DailyData option"
  files :: "int \<Rightarrow> fileContent option"
  writeFails :: bool

definition createEmptyDailyData :: "int \<Rightarrow> DailyData" where
  "createEmptyDailyData d =
     \<lparr> date = d, totalTime = 0, dayActiveTime = 0, dayIdleTime = 0, sessions = [],
       dayRepositories = [], dayLanguages = [], emailSent = False, emailSentAt = None \<rparr>"

definition loadDailyData :: "int \<Rightarrow> StorageService \<Rightarrow> DailyData" where
  "loadDailyData d st =
     (case files st d of
        Some (Json content) \<Rightarrow> content
      | Some Unreadable \<Rightarrow> createEmptyDailyData d
      | None \<Rightarrow> createEmptyDailyData d)"

text \<open>\<open>getTodayData\<close> when \<open>getTodayDateString()\<close> is \<open>today\<close>: the record and the
  service with its cache updated.\<close>

definition getTodayData :: "int \<Rightarrow> StorageService \<Rightarrow> DailyData \<times> StorageService" where
  "getTodayData today st =
     (case currentDayData st of
        Some cur \<Rightarrow>
          if date cur = today then (cur, st)
          else (loadDailyData today st, st\<lparr> currentDayData := Some (loadDailyData today st) \<rparr>)
      | None \<Rightarrow> (loadDailyData today st, st\<lparr> currentDayData := Some (loadDailyData today st) \<rparr>))"

definition saveDailyData :: "DailyData \<Rightarrow> StorageService \<Rightarrow> StorageService" where
  "saveDailyData data st =
     (if writeFails st then st else st\<lparr> files := (files st)(date data \<mapsto> Json data) \<rparr>)"

definition saveTodayData :: "DailyData \<Rightarrow> StorageService \<Rightarrow> StorageService" where
  "saveTodayData data st = st\<lparr> currentDayData := Some data, saveDebounceTimer := Some data \<rparr>"

text \<open>The callback of the debounce timer, when it fires.\<close>

definition debounceFires :: "StorageService \<Rightarrow> StorageService" where
  "debounceFires st =
     (case saveDebounceTimer st of
        None \<Rightarrow> st
      | Some data \<Rightarrow> (saveDailyData data st)\<lparr> saveDebounceTimer := None \<rparr>)"

definition forceSave :: "StorageService \<Rightarrow> StorageService" where
  "forceSave st =
     (case currentDayData st of
        None \<Rightarrow> st\<lparr> saveDebounceTimer := None \<rparr>
      | Some cur \<Rightarrow> saveDailyData cur (st\<lparr> saveDebounceTimer := None \<rparr>))"

definition updateSession :: "int \<Rightarrow> TrackingSession \<Rightarrow> StorageService \<Rightarrow> StorageService" where
  "updateSession today session st =
     (case getTodayData today st of
        (data, st') \<Rightarrow> saveTodayData (upsertSession session data) st')"

section \<open>Tracker service (tracker.ts)\<close>

text \<open>
  Every handler runs to completion on one thread; the model gives each handler one
  reading \<open>now\<close> of the clock, which stands for all the \<open>new Date()\<close> calls it makes,
  and takes the identity provider to answer at once (the \<open>await\<close> points of
  \<open>start\<close> and \<open>handleEditorChange\<close> admit no other handler in between).
  \<open>disposables\<close> counts the registered listeners and \<open>heartbeatInterval\<close> says
  whether the interval timer is set.  The status-bar callback \<open>onTimeUpdate\<close> has no
  effect on the tracker and is left out.

  Records are values.  The code hands the storage service the session object itself,
  whose \<open>repositories\<close> are the activity objects of the map, and the callback of the
  debounce timer serialises the record as it is when the timer fires.  Here
  \<open>saveCurrentSession\<close> hands over the value that the session has at that moment, and
  the timer holds the record as it was when \<open>saveTodayData\<close> armed it: what the tracker
  does to the session or to an activity afterwards shows in the stored record at the
  next \<open>saveCurrentSession\<close>, not before.  The statements below are about single calls
  and about properties that every value of the session has.
\<close>

record TrackerService =
  state :: TrackingState
  heartbeatInterval :: bool
  disposables :: nat
  repoActivityMap :: "(string \<times> RepoActivity) list"
  currentSession :: TrackingSession
  config :: TrackingConfig
  storage :: StorageService

text \<open>What the editor and the identity provider (gitService.ts) answer during one handler.\<close>

record Workspace =
  activeTextEditor :: "(string \<times> string) option"
  workspaceFolder :: "(string \<times> string) option"
  getRepoForFile :: "string \<Rightarrow> GitRepoInfo option"
  getRepoFromVSCodeGit :: "string \<Rightarrow> GitRepoInfo option"

definition initializeState :: "int \<Rightarrow> bool \<Rightarrow> TrackingState" where
  "initializeState now focused =
     \<lparr> isTracking = False, sessionStart = now, lastActivityTime = now, currentRepo = None,
       isWindowFocused = focused, isIdle = False, sessionActiveTime = 0, sessionIdleTime = 0,
       idleStartTime = None \<rparr>"

definition createNewSession :: "int \<Rightarrow> string \<Rightarrow> TrackingSession" where
  "createNewSession now sid =
     \<lparr> sessionId = sid, startTime = now, endTime = None, totalDuration = 0, activeTime = 0,
       idleTime = 0, repositories = [] \<rparr>"

definition repoKey :: "CurrentRepoInfo \<Rightarrow> string" where
  "repoKey repo = path repo @ '':'' @ branch repo"

definition newActivity :: "CurrentRepoInfo \<Rightarrow> RepoActivity" where
  "newActivity repo =
     \<lparr> repoPath = path repo, repoName = name repo, branchName = branch repo,
       remoteUrl = curRemoteUrl repo, timeSpent = 0, filesEdited = [], languages = [] \<rparr>"

text \<open>\<open>if (repo.language)\<close>: a missing or empty language id is falsy.\<close>

definition billActivity :: "CurrentRepoInfo \<Rightarrow> int \<Rightarrow> RepoActivity \<Rightarrow> RepoActivity" where
  "billActivity repo timeMs activity =
     (case language repo of
        None \<Rightarrow> activity\<lparr> timeSpent := timeSpent activity + timeMs \<rparr>
      | Some l \<Rightarrow>
          if l = [] then activity\<lparr> timeSpent := timeSpent activity + timeMs \<rparr>
          else activity\<lparr> timeSpent := timeSpent activity + timeMs,
                         languages := addLanguageTime (languages activity) (l, timeMs) \<rparr>)"

definition addTimeToRepo ::
  "CurrentRepoInfo \<Rightarrow> int \<Rightarrow> (string \<times> RepoActivity) list \<Rightarrow> (string \<times> RepoActivity) list" where
  "addTimeToRepo repo timeMs m =
     (case map_of m (repoKey repo) of
        None \<Rightarrow> AList.update (repoKey repo) (billActivity repo timeMs (newActivity repo)) m
      | Some activity \<Rightarrow> AList.update (repoKey repo) (billActivity repo timeMs activity) m)"

definition finalizeRepoTime :: "int \<Rightarrow> CurrentRepoInfo \<Rightarrow> TrackerService \<Rightarrow> TrackerService" where
  "finalizeRepoTime now repo t =
     t\<lparr> repoActivityMap := addTimeToRepo repo (now - repoStartTime repo) (repoActivityMap t) \<rparr>"

definition enterIdleState :: "TrackerService \<Rightarrow> TrackerService" where
  "enterIdleState t =
     (if isIdle (state t) then t
      else t\<lparr> state := (state t)\<lparr> isIdle := True,
                                  idleStartTime := Some (lastActivityTime (state t)) \<rparr> \<rparr>)"

definition exitIdleState :: "int \<Rightarrow> TrackerService \<Rightarrow> TrackerService" where
  "exitIdleState now t =
     (if \<not> isIdle (state t) then t
      else (case idleStartTime (state t) of
              Some idleStart \<Rightarrow>
                t\<lparr> state := (state t)\<lparr> sessionIdleTime := sessionIdleTime (state t) + (now - idleStart),
                                       isIdle := False, idleStartTime := None \<rparr> \<rparr>
            | None \<Rightarrow> t\<lparr> state := (state t)\<lparr> isIdle := False, idleStartTime := None \<rparr> \<rparr>))"

definition recordActivity :: "int \<Rightarrow> TrackerService \<Rightarrow> TrackerService" where
  "recordActivity now t =
     (let t1 = (if isIdle (state t) then exitIdleState now t else t);
          t2 = (case currentRepo (state t1) of
                  Some repo \<Rightarrow>
                    t1\<lparr> repoActivityMap :=
                          addTimeToRepo repo (now - lastActivityTime (state t1)) (repoActivityMap t1) \<rparr>
                | None \<Rightarrow> t1)
      in t2\<lparr> state := (state t2)\<lparr> lastActivityTime := now \<rparr> \<rparr>)"

definition recordFileEdit :: "string \<Rightarrow> TrackerService \<Rightarrow> TrackerService" where
  "recordFileEdit filePath t =
     (case currentRepo (state t) of
        None \<Rightarrow> t
      | Some repo \<Rightarrow>
          (case map_of (repoActivityMap t) (repoKey repo) of
             None \<Rightarrow> t
           | Some activity \<Rightarrow>
               if filePath \<in> set (filesEdited activity) then t
               else t\<lparr> repoActivityMap :=
                         AList.update (repoKey repo)
                           (activity\<lparr> filesEdited := filesEdited activity @ [filePath] \<rparr>)
                           (repoActivityMap t) \<rparr>))"

definition updateTimeCounters :: "int \<Rightarrow> TrackerService \<Rightarrow> TrackerService" where
  "updateTimeCounters now t =
     (let sessionDuration = now - startTime (currentSession t);
          s1 = (currentSession t)\<lparr> totalDuration := sessionDuration,
                                   idleTime := sessionIdleTime (state t),
                                   activeTime := sessionDuration - sessionIdleTime (state t) \<rparr>
      in (case idleStartTime (state t) of
            Some idleStart \<Rightarrow>
              if isIdle (state t) then
                t\<lparr> currentSession :=
                     s1\<lparr> idleTime := idleTime s1 + (now - idleStart),
                         activeTime := totalDuration s1 - (idleTime s1 + (now - idleStart)) \<rparr> \<rparr>
              else t\<lparr> currentSession := s1 \<rparr>
          | None \<Rightarrow> t\<lparr> currentSession := s1 \<rparr>))"

definition saveCurrentSession :: "int \<Rightarrow> TrackerService \<Rightarrow> TrackerService" where
  "saveCurrentSession now t =
     (let s = (currentSession t)\<lparr> repositories := map snd (repoActivityMap t),
                                  endTime := Some now \<rparr>
      in t\<lparr> currentSession := s, storage := updateSession (dateString now) s (storage t) \<rparr>)"

definition handleDayChange :: "int \<Rightarrow> bool \<Rightarrow> string \<Rightarrow> TrackerService \<Rightarrow> TrackerService" where
  "handleDayChange now focused sid t =
     (let t1 = saveCurrentSession now t;
          t2 = t1\<lparr> storage := forceSave (storage t1) \<rparr>
      in t2\<lparr> state := (initializeState now focused)\<lparr> isTracking := True \<rparr>,
             currentSession := createNewSession now sid,
             repoActivityMap := [] \<rparr>)"

definition heartbeat :: "int \<Rightarrow> bool \<Rightarrow> string \<Rightarrow> TrackerService \<Rightarrow> TrackerService" where
  "heartbeat now focused sid t =
     (if \<not> isTracking (state t) then t
      else if dateString now \<noteq> dateString (startTime (currentSession t))
      then handleDayChange now focused sid t
      else
        (let timeSinceLastActivity = now - lastActivityTime (state t);
             idleThresholdMs = idleThresholdMinutes (config t) * 60 * 1000;
             t1 = (if \<not> isIdle (state t) \<and> timeSinceLastActivity > idleThresholdMs
                   then enterIdleState t else t);
             t2 = updateTimeCounters now t1;
             t3 = saveCurrentSession now t2
         in t3\<lparr> storage := snd (getTodayData (dateString now) (storage t3)) \<rparr>))"


text \<open>\<open>updateCurrentRepo(filePath?)\<close>; an absent or empty \<open>filePath\<close> is falsy.\<close>

definition resolveRepo :: "Workspace \<Rightarrow> string option \<Rightarrow> GitRepoInfo option" where
  "resolveRepo ws filePath =
     (if filePath \<noteq> None \<and> filePath \<noteq> Some []
      then getRepoForFile ws (the filePath)
      else (case activeTextEditor ws of
              Some (fsPath, languageId) \<Rightarrow> getRepoForFile ws fsPath
            | None \<Rightarrow>
                (case workspaceFolder ws of
                   Some (fsPath, folderName) \<Rightarrow> getRepoFromVSCodeGit ws fsPath
                 | None \<Rightarrow> None)))"

definition updateCurrentRepo ::
  "int \<Rightarrow> Workspace \<Rightarrow> string option \<Rightarrow> TrackerService \<Rightarrow> TrackerService" where
  "updateCurrentRepo now ws filePath t =
     (let repoInfo = resolveRepo ws filePath;
          t1 = (case currentRepo (state t) of
                  None \<Rightarrow> t
                | Some cur \<Rightarrow>
                    (case repoInfo of
                       None \<Rightarrow> t
                     | Some info \<Rightarrow>
                         if path cur \<noteq> gitPath info then finalizeRepoTime now cur t else t))
      in (case repoInfo of
            Some info \<Rightarrow>
              t1\<lparr> state := (state t1)\<lparr> currentRepo := Some
                     \<lparr> path = gitPath info, name = gitName info, branch = gitBranch info,
                       curRemoteUrl = gitRemoteUrl info,
                       activeFile = map_option fst (activeTextEditor ws),
                       language = map_option snd (activeTextEditor ws),
                       repoStartTime = now \<rparr> \<rparr> \<rparr>
          | None \<Rightarrow>
              (case workspaceFolder ws of
                 Some (fsPath, folderName) \<Rightarrow>
                   t1\<lparr> state := (state t1)\<lparr> currentRepo := Some
                          \<lparr> path = fsPath, name = folderName, branch = ''N/A'',
                            curRemoteUrl = None,
                            activeFile = map_option fst (activeTextEditor ws),
                            language = map_option snd (activeTextEditor ws),
                            repoStartTime = now \<rparr> \<rparr> \<rparr>
               | None \<Rightarrow> t1)))"

text \<open>\<open>handleEditorChange\<close>; \<open>editor\<close> is the file path and language id of the new
  active editor, if there is one.\<close>

definition handleEditorChange ::
  "int \<Rightarrow> Workspace \<Rightarrow> (string \<times> string) option \<Rightarrow> TrackerService \<Rightarrow> TrackerService" where
  "handleEditorChange now ws editor t =
     (let t1 = recordActivity now t
      in (case editor of
            None \<Rightarrow> t1
          | Some (fsPath, languageId) \<Rightarrow>
              (let t2 = updateCurrentRepo now ws (Some fsPath) t1
               in (case currentRepo (state t2) of
                     None \<Rightarrow> t2
                   | Some repo \<Rightarrow>
                       t2\<lparr> state := (state t2)\<lparr> currentRepo :=
                              Some (repo\<lparr> language := Some languageId,
                                         activeFile := Some fsPath \<rparr>) \<rparr> \<rparr>))))"

definition handleWindowStateChange :: "int \<Rightarrow> bool \<Rightarrow> TrackerService \<Rightarrow> TrackerService" where
  "handleWindowStateChange now focused t =
     (let t1 = t\<lparr> state := (state t)\<lparr> isWindowFocused := focused \<rparr> \<rparr>
      in if focused then
           (let t2 = recordActivity now t1
            in if isIdle (state t2) then exitIdleState now t2 else t2)
         else t1\<lparr> state := (state t1)\<lparr> idleStartTime := Some now \<rparr> \<rparr>)"

definition getCurrentSession :: "int \<Rightarrow> TrackerService \<Rightarrow> TrackerService" where
  "getCurrentSession now t =
     (let t1 = updateTimeCounters now t
      in t1\<lparr> currentSession := (currentSession t1)\<lparr> repositories := map snd (repoActivityMap t1) \<rparr> \<rparr>)"

text \<open>\<open>start\<close>: \<open>setupEventListeners\<close> registers six listeners, \<open>startHeartbeat\<close> sets
  the interval timer.\<close>

definition start :: "int \<Rightarrow> Workspace \<Rightarrow> string \<Rightarrow> TrackerService \<Rightarrow> TrackerService" where
  "start now ws sid t =
     (if isTracking (state t) then t
      else
        (let t1 = t\<lparr> state := (state t)\<lparr> isTracking := True, sessionStart := now,
                                         lastActivityTime := now \<rparr>,
                    currentSession := createNewSession now sid \<rparr>;
             t2 = t1\<lparr> disposables := disposables t1 + 6 \<rparr>;
             t3 = t2\<lparr> heartbeatInterval := True \<rparr>
         in updateCurrentRepo now ws None t3))"

definition stop :: "int \<Rightarrow> TrackerService \<Rightarrow> TrackerService" where
  "stop now t =
     (if \<not> isTracking (state t) then t
      else
        (let t1 = (case currentRepo (state t) of
                     Some repo \<Rightarrow> finalizeRepoTime now repo t
                   | None \<Rightarrow> t);
             t2 = updateTimeCounters now t1;
             t3 = saveCurrentSession now t2;
             t4 = t3\<lparr> storage := forceSave (storage t3) \<rparr>;
             t5 = t4\<lparr> heartbeatInterval := False, disposables := 0 \<rparr>
         in t5\<lparr> state := (state t5)\<lparr> isTracking := False \<rparr> \<rparr>))"

text \<open>The constructor, given the configuration that \<open>loadConfig\<close> reads.\<close>

definition newTrackerService ::
  "StorageService \<Rightarrow> TrackingConfig \<Rightarrow> int \<Rightarrow> bool \<Rightarrow> string \<Rightarrow> TrackerService" where
  "newTrackerService st cfg now focused sid =
     \<lparr> state = initializeState now focused, heartbeatInterval = False, disposables = 0,
       repoActivityMap = [], currentSession = createNewSession now sid, config = cfg,
       storage = st \<rparr>"

subsection \<open>The tracker as a state machine\<close>

text \<open>
  The triggers that reach the tracker: the public methods, the heartbeat timer, the six
  listeners registered by \<open>setupEventListeners\<close>, and the debounce timer of the
  storage service.  A listener runs only while it is registered and the heartbeat only
  while its timer is set.
\<close>

datatype Event =
    Start int Workspace string
  | Stop int
  | Heartbeat int bool string
  | GetCurrentSession int
  | DidChangeWindowState int bool
  | DidChangeTextDocument int nat
  | DidChangeActiveTextEditor int Workspace "(string \<times> string) option"
  | DidSaveTextDocument int string
  | DidChangeWorkspaceFolders int Workspace
  | DidChangeConfiguration bool TrackingConfig
  | DebounceTimer

fun step :: "TrackerService \<Rightarrow> Event \<Rightarrow> TrackerService" where
  "step t (Start now ws sid) = start now ws sid t"
| "step t (Stop now) = stop now t"
| "step t (Heartbeat now focused sid) =
     (if heartbeatInterval t then heartbeat now focused sid t else t)"
| "step t (GetCurrentSession now) = getCurrentSession now t"
| "step t (DidChangeWindowState now focused) =
     (if disposables t = 0 then t else handleWindowStateChange now focused t)"
| "step t (DidChangeTextDocument now contentChanges) =
     (if disposables t = 0 then t
      else if contentChanges > 0 then recordActivity now t else t)"
| "step t (DidChangeActiveTextEditor now ws editor) =
     (if disposables t = 0 then t else handleEditorChange now ws editor t)"
| "step t (DidSaveTextDocument now fsPath) =
     (if disposables t = 0 then t else recordFileEdit fsPath (recordActivity now t))"
| "step t (DidChangeWorkspaceFolders now ws) =
     (if disposables t = 0 then t else updateCurrentRepo now ws None t)"
| "step t (DidChangeConfiguration affects cfg) =
     (if disposables t = 0 then t else if affects then t\<lparr> config := cfg \<rparr> else t)"
| "step t DebounceTimer = t\<lparr> storage := debounceFires (storage t) \<rparr>"

definition run :: "TrackerService \<Rightarrow> Event list \<Rightarrow> TrackerService" where
  "run t events = foldl step t events"


subsection \<open>Retention (StorageService.cleanupOldData)\<close>

text \<open>
  The directory is the list of names that \<open>readdirSync\<close> returns, or \<open>None\<close> when
  it throws.  \<open>parseDate\<close> is the platform's \<open>new Date(string).getTime()\<close>, with
  \<open>None\<close> for an invalid date (\<open>NaN\<close>, which compares false with every instant), and
  \<open>unlinkThrows\<close> says for which names \<open>unlinkSync\<close> throws.  The \<open>try\<close> block
  encloses the whole loop, so the first exception ends the pass.
\<close>

definition endsWith :: "string \<Rightarrow> string \<Rightarrow> bool" where
  "endsWith s suffix =
     (length suffix \<le> length s \<and> drop (length s - length suffix) s = suffix)"

text \<open>\<open>String.prototype.replace\<close> with a string pattern: the first occurrence only.\<close>

fun replaceFirst :: "string \<Rightarrow> string \<Rightarrow> string \<Rightarrow> string" where
  "replaceFirst pat rep [] = (if pat = [] then rep else [])"
| "replaceFirst pat rep (c # cs) =
     (if take (length pat) (c # cs) = pat then rep @ drop (length pat) (c # cs)
      else c # replaceFirst pat rep cs)"

text \<open>
  The cutoff is \<open>new Date()\<close> after \<open>setDate(getDate() - 90)\<close>, which works on the
  local calendar.  The host's time zone is a parameter: \<open>tz t True\<close> is the offset of
  local time from UTC, in milliseconds, at the instant \<open>t\<close>, and \<open>tz t False\<close> the
  offset at the local time value \<open>t\<close> (ECMAScript's \<open>LocalTZA(t, isUTC)\<close>).
  \<open>setDate\<close> takes the local time value, replaces its day of the month \<open>D\<close> by
  \<open>D - 90\<close> and keeps the time within the day; as \<open>MakeDay\<close> counts days from the
  first of the month, the day number of the result is the day number of the local time
  value less ninety.  The result is read as a local time and converted back to an
  instant.
\<close>

type_synonym TimeZone = "int \<Rightarrow> bool \<Rightarrow> int"

definition Day :: "int \<Rightarrow> int" where
  "Day t = t div msPerDay"

definition TimeWithinDay :: "int \<Rightarrow> int" where
  "TimeWithinDay t = t mod msPerDay"

definition MakeDate :: "int \<Rightarrow> int \<Rightarrow> int" where
  "MakeDate day time = day * msPerDay + time"

definition LocalTime :: "TimeZone \<Rightarrow> int \<Rightarrow> int" where
  "LocalTime tz t = t + tz t True"

definition UTC :: "TimeZone \<Rightarrow> int \<Rightarrow> int" where
  "UTC tz t = t - tz t False"

text \<open>\<open>d.setDate(d.getDate() - n)\<close> on the instant \<open>t\<close>.\<close>

definition setDateBack :: "TimeZone \<Rightarrow> int \<Rightarrow> int \<Rightarrow> int" where
  "setDateBack tz n t =
     (let local = LocalTime tz t
      in UTC tz (MakeDate (Day local - n) (TimeWithinDay local)))"

definition cutoffDate :: "TimeZone \<Rightarrow> int \<Rightarrow> int" where
  "cutoffDate tz now = setDateBack tz 90 now"

text \<open>The loop over the directory; the result lists the files it unlinked.\<close>

fun cleanupLoop ::
  "int \<Rightarrow> (string \<Rightarrow> int option) \<Rightarrow> (string \<Rightarrow> bool) \<Rightarrow> string list \<Rightarrow> string list" where
  "cleanupLoop cutoff parseDate unlinkThrows [] = []"
| "cleanupLoop cutoff parseDate unlinkThrows (file # rest) =
     (if endsWith file ''.json'' then
        (case parseDate (replaceFirst ''.json'' [] file) of
           None \<Rightarrow> cleanupLoop cutoff parseDate unlinkThrows rest
         | Some fileDate \<Rightarrow>
             if fileDate < cutoff then
               (if unlinkThrows file then []
                else file # cleanupLoop cutoff parseDate unlinkThrows rest)
             else cleanupLoop cutoff parseDate unlinkThrows rest)
      else cleanupLoop cutoff parseDate unlinkThrows rest)"

definition cleanupOldData ::
  "TimeZone \<Rightarrow> int \<Rightarrow> (string \<Rightarrow> int option) \<Rightarrow> (string \<Rightarrow> bool) \<Rightarrow> string list option
     \<Rightarrow> string list" where
  "cleanupOldData tz now parseDate unlinkThrows dir =
     (case dir of
        None \<Rightarrow> []
      | Some listing \<Rightarrow> cleanupLoop (cutoffDate tz now) parseDate unlinkThrows listing)"

section \<open>Notions used in the statements\<close>

text \<open>Conservation within one session.\<close>

definition conserved :: "TrackingSession \<Rightarrow> bool" where
  "conserved s \<longleftrightarrow> activeTime s + idleTime s = totalDuration s"

text \<open>Every session held by the storage service (in the cached record, in the record
  awaiting the debounce timer, in the files) satisfies \<open>P\<close>.\<close>

definition storageAll :: "(TrackingSession \<Rightarrow> bool) \<Rightarrow> StorageService \<Rightarrow> bool" where
  "storageAll P st \<longleftrightarrow>
     (\<forall>d. currentDayData st = Some d \<longrightarrow> list_all P (sessions d))
     \<and> (\<forall>d. saveDebounceTimer st = Some d \<longrightarrow> list_all P (sessions d))
     \<and> (\<forall>k d. files st k = Some (Json d) \<longrightarrow> list_all P (sessions d))"

text \<open>No path occurs twice in the \<open>filesEdited\<close> of any activity of a session.\<close>

definition sessionFilesDistinct :: "TrackingSession \<Rightarrow> bool" where
  "sessionFilesDistinct s \<longleftrightarrow> (\<forall>activity \<in> set (repositories s). distinct (filesEdited activity))"

text \<open>The test that \<open>cleanupOldData\<close> applies to a file name: it ends in \<open>.json\<close>
  and its date key parses to an instant before the cutoff.\<close>

definition isExpired :: "int \<Rightarrow> (string \<Rightarrow> int option) \<Rightarrow> string \<Rightarrow> bool" where
  "isExpired cutoff parseDate file \<longleftrightarrow>
     endsWith file ''.json'' \<and>
     (case parseDate (replaceFirst ''.json'' [] file) of
        Some fileDate \<Rightarrow> fileDate < cutoff
      | None \<Rightarrow> False)"

text \<open>The time billed so far to the context stored under \<open>key\<close>, and to one of its
  languages; an absent entry reads as \<open>0\<close>.\<close>

definition timeSpentOf :: "(string \<times> RepoActivity) list \<Rightarrow> string \<Rightarrow> int" where
  "timeSpentOf m key = (case map_of m key of Some activity \<Rightarrow> timeSpent activity | None \<Rightarrow> 0)"

definition languageTimeOf :: "(string \<times> RepoActivity) list \<Rightarrow> string \<Rightarrow> string \<Rightarrow> int" where
  "languageTimeOf m key l =
     (case map_of m key of
        Some activity \<Rightarrow> (case map_of (languages activity) l of Some v \<Rightarrow> v | None \<Rightarrow> 0)
      | None \<Rightarrow> 0)"

text \<open>No path occurs twice in the \<open>filesEdited\<close> of any activity of the live map or of
  the current session.\<close>

definition liveFilesDistinct :: "TrackerService \<Rightarrow> bool" where
  "liveFilesDistinct t \<longleftrightarrow>
     (\<forall>activity \<in> set (map snd (repoActivityMap t)). distinct (filesEdited activity))
     \<and> (\<forall>activity \<in> set (repositories (currentSession t)). distinct (filesEdited activity))"

subsection \<open>Concrete inputs\<close>

definition appInfo :: GitRepoInfo where
  "appInfo = \<lparr> gitPath = ''/w/app'', gitName = ''app'', gitBranch = ''main'', gitRemoteUrl = None \<rparr>"

definition libInfo :: GitRepoInfo where
  "libInfo = \<lparr> gitPath = ''/w/lib'', gitName = ''lib'', gitBranch = ''main'', gitRemoteUrl = None \<rparr>"

text \<open>A workspace with two repositories, the editor being on a file of the first.\<close>

definition appWorkspace :: Workspace where
  "appWorkspace =
     \<lparr> activeTextEditor = Some (''/w/app/a.ts'', ''typescript''),
       workspaceFolder = Some (''/w/app'', ''app''),
       getRepoForFile = (\<lambda>f. if f = ''/w/app/a.ts'' then Some appInfo
                             else if f = ''/w/lib/b.ts'' then Some libInfo else None),
       getRepoFromVSCodeGit = (\<lambda>f. None) \<rparr>"

definition emptyStorage :: StorageService where
  "emptyStorage =
     \<lparr> currentDayData = None, saveDebounceTimer = None, files = (\<lambda>d. None), writeFails = False \<rparr>"

definition defaultConfig :: TrackingConfig where
  "defaultConfig = \<lparr> idleThresholdMinutes = 3, heartbeatIntervalSeconds = 30 \<rparr>"

text \<open>The tracker as constructed at the epoch, and after \<open>start\<close> at the same instant.\<close>

definition freshTracker :: TrackerService where
  "freshTracker = newTrackerService emptyStorage defaultConfig 0 True ''session_0''"

definition startedTracker :: TrackerService where
  "startedTracker = start 0 appWorkspace ''session_1'' freshTracker"

text \<open>A record for day \<open>0\<close> with one session of ten seconds, three of them idle, spent
  in one repository on two files.\<close>

definition sampleSession :: TrackingSession where
  "sampleSession =
     \<lparr> sessionId = ''session_1'', startTime = 0, endTime = Some 10000, totalDuration = 10000,
       activeTime = 7000, idleTime = 3000,
       repositories =
         [\<lparr> repoPath = ''/w/app'', repoName = ''app'', branchName = ''main'', remoteUrl = None,
            timeSpent = 7000, filesEdited = [''/w/app/a.ts'', ''/w/app/b.ts''],
            languages = [(''typescript'', 7000)] \<rparr>] \<rparr>"

definition sampleDay :: DailyData where
  "sampleDay = (createEmptyDailyData 0)\<lparr> sessions := [sampleSession] \<rparr>"

text \<open>A second session of the same day in the same repository, which shares one file
  with the first; the record with both; the second session as a later heartbeat reports
  it.\<close>

definition laterSession :: TrackingSession where
  "laterSession =
     \<lparr> sessionId = ''session_2'', startTime = 20000, endTime = Some 50000, totalDuration = 30000,
       activeTime = 30000, idleTime = 0,
       repositories =
         [\<lparr> repoPath = ''/w/app'', repoName = ''app'', branchName = ''fix'', remoteUrl = None,
            timeSpent = 30000, filesEdited = [''/w/app/b.ts'', ''/w/app/c.ts''],
            languages = [(''typescript'', 20000), (''json'', 10000)] \<rparr>] \<rparr>"

definition twoSessionDay :: DailyData where
  "twoSessionDay = recalculateTotals ((createEmptyDailyData 0)\<lparr> sessions := [sampleSession, laterSession] \<rparr>)"

definition revisedSession :: TrackingSession where
  "revisedSession = laterSession\<lparr> endTime := Some 60000, totalDuration := 40000, activeTime := 40000 \<rparr>"

text \<open>The started tracker after a heartbeat four minutes later with no activity in
  between, and after one activity ten seconds after the start.\<close>

definition idleTracker :: TrackerService where
  "idleTracker = heartbeat 240000 True ''session_2'' startedTracker"

text \<open>The started tracker after the file \<open>a.ts\<close> is saved at 0:10, and after a
  heartbeat at 0:30.\<close>

definition savedTracker :: TrackerService where
  "savedTracker =
     run freshTracker [Start 0 appWorkspace ''session_1'', DidSaveTextDocument 10000 ''/w/app/a.ts'']"

definition savedBeat :: TrackerService where
  "savedBeat = step savedTracker (Heartbeat 30000 True ''session_2'')"

text \<open>The window of the idle tracker loses the focus at 5:00.\<close>

definition blurredTracker :: TrackerService where
  "blurredTracker = handleWindowStateChange 300000 False idleTracker"

definition activeTracker :: TrackerService where
  "activeTracker = recordActivity 10000 startedTracker"

text \<open>A tracker constructed and started at 23:58:00 of day \<open>0\<close>; the first heartbeat
  that reaches it comes at 00:01:01 of day \<open>1\<close>, three minutes and one second later.\<close>

definition lateTracker :: TrackerService where
  "lateTracker =
     start 86280000 appWorkspace ''session_1''
       (newTrackerService emptyStorage defaultConfig 86280000 True ''session_0'')"

text \<open>The context that \<open>start\<close> resolves in \<open>appWorkspace\<close>.\<close>

definition appRepo :: CurrentRepoInfo where
  "appRepo =
     \<lparr> path = ''/w/app'', name = ''app'', branch = ''main'', curRemoteUrl = None,
       activeFile = Some ''/w/app/a.ts'', language = Some ''typescript'', repoStartTime = 0 \<rparr>"

text \<open>The user then opens a file of the second repository, twenty seconds after the
  start.\<close>

definition libWorkspace :: Workspace where
  "libWorkspace = appWorkspace\<lparr> activeTextEditor := Some (''/w/lib/b.ts'', ''typescript'') \<rparr>"

definition switchedTracker :: TrackerService where
  "switchedTracker =
     handleEditorChange 20000 libWorkspace (Some (''/w/lib/b.ts'', ''typescript'')) activeTracker"

text \<open>A session that spans midnight: the tracker is constructed and started at
  23:59:00 of day \<open>0\<close>, a heartbeat follows at 23:59:30 and the debounce timer writes the
  file; the next heartbeat comes at 00:00:00 of day \<open>1\<close>.\<close>

definition nightTracker :: TrackerService where
  "nightTracker =
     start 86340000 appWorkspace ''session_1''
       (newTrackerService emptyStorage defaultConfig 86340000 True ''session_0'')"

definition beforeMidnight :: TrackerService where
  "beforeMidnight = run nightTracker [Heartbeat 86370000 True ''session_2'', DebounceTimer]"

definition afterMidnight :: TrackerService where
  "afterMidnight = step beforeMidnight (Heartbeat 86400000 True ''session_3'')"

text \<open>The session as the heartbeat of 23:59:30 stored it, and as the rollover stores it.\<close>

definition eveningSession :: TrackingSession where
  "eveningSession =
     \<lparr> sessionId = ''session_1'', startTime = 86340000, endTime = Some 86370000,
       totalDuration = 30000, activeTime = 30000, idleTime = 0, repositories = [] \<rparr>"

definition closedSession :: TrackingSession where
  "closedSession = eveningSession\<lparr> endTime := Some 86400000 \<rparr>"

definition dayRecord :: "int \<Rightarrow> TrackingSession list \<Rightarrow> int \<Rightarrow> DailyData" where
  "dayRecord d ss ms =
     \<lparr> date = d, totalTime = ms, dayActiveTime = ms, dayIdleTime = 0, sessions = ss,
       dayRepositories = [], dayLanguages = [], emailSent = False, emailSentAt = None \<rparr>"

text \<open>A storage directory on 2 April 1970 at noon UTC (day \<open>91\<close>), a date parser that
  knows the two dates in it (1 January is day \<open>0\<close>, 3 January is day \<open>2\<close>), and a time
  zone two hours ahead of UTC throughout.\<close>

definition sampleListing :: "string list" where
  "sampleListing = [''1970-01-01.json'', ''notes.json'', ''1970-01-03.json'', ''readme.txt'']"

definition sampleParseDate :: "string \<Rightarrow> int option" where
  "sampleParseDate s =
     (if s = ''1970-01-01'' then Some 0
      else if s = ''1970-01-03'' then Some (2 * msPerDay)
      else None)"

definition sampleNow :: int where
  "sampleNow = 91 * msPerDay + 43200000"

definition fixedZone :: TimeZone where
  "fixedZone t isUTC = 7200000"

text \<open>London in the first ten months of 2024: summer time, one hour ahead of UTC, begins on
  31 March at 01:00 UTC, which is 02:00 of the local time values.  The instant is
  14 June 2024, 23:30 UTC; the record of 17 March is dated 89 days before it and the
  record of 15 March 91 days before it.\<close>

definition londonZone :: TimeZone where
  "londonZone t isUTC =
     (if isUTC then (if 1711846800000 \<le> t then 3600000 else 0)
      else (if 1711850400000 \<le> t then 3600000 else 0))"

definition londonNow :: int where
  "londonNow = 1718407800000"

definition londonParseDate :: "string \<Rightarrow> int option" where
  "londonParseDate s =
     (if s = ''2024-03-17'' then Some 1710633600000
      else if s = ''2024-03-15'' then Some 1710460800000
      else None)"

section \<open>Properties of the storage service\<close>

lemma foldl_recalcSession:
  "foldl recalcSession (d, m) ss =
     (d\<lparr> totalTime := totalTime d + sum_list (map totalDuration ss),
         dayActiveTime := dayActiveTime d + sum_list (map activeTime ss),
         dayIdleTime := dayIdleTime d + sum_list (map idleTime ss),
         dayLanguages := foldl (\<lambda>l s. mergeLanguages l (sessionLanguages s)) (dayLanguages d) ss \<rparr>,
      foldl (\<lambda>m s. foldl aggregateRepo m (repositories s)) m ss)"
proof (induction ss arbitrary: d m)
  case Nil
  show ?case by simp
next
  case (Cons s ss)
  have "recalcSession (d, m) s =
      (d\<lparr> totalTime := totalTime d + totalDuration s,
          dayActiveTime := dayActiveTime d + activeTime s,
          dayIdleTime := dayIdleTime d + idleTime s,
          dayLanguages := mergeLanguages (dayLanguages d) (sessionLanguages s) \<rparr>,
       foldl aggregateRepo m (repositories s))"
    by (simp add: recalcSession_def)
  then show ?case by (simp add: Cons.IH add.assoc)
qed

text \<open>The recomputed record as an explicit function of the session list: nothing of the
  old totals, repositories or languages survives.\<close>

lemma recalculateTotals_eq:
  "recalculateTotals d =
     \<lparr> date = date d,
       totalTime = sum_list (map totalDuration (sessions d)),
       dayActiveTime = sum_list (map activeTime (sessions d)),
       dayIdleTime = sum_list (map idleTime (sessions d)),
       sessions = sessions d,
       dayRepositories =
         map snd (foldl (\<lambda>m s. foldl aggregateRepo m (repositories s)) [] (sessions d)),
       dayLanguages = foldl (\<lambda>l s. mergeLanguages l (sessionLanguages s)) [] (sessions d),
       emailSent = emailSent d, emailSentAt = emailSentAt d \<rparr>"
  by (simp add: recalculateTotals_def foldl_recalcSession)

lemma findIndex_Some:
  "findIndex p xs = Some i \<Longrightarrow> i < length xs \<and> p (xs ! i) \<and> (\<forall>j<i. \<not> p (xs ! j))"
proof (induction xs arbitrary: i)
  case Nil
  then show ?case by simp
next
  case (Cons x xs)
  show ?case
  proof (cases "p x")
    case True
    with Cons.prems show ?thesis by simp
  next
    case False
    with Cons.prems obtain k where k: "findIndex p xs = Some k" "i = Suc k"
      by (auto split: option.splits)
    from Cons.IH[OF k(1)] False k(2) show ?thesis
      by (auto simp: less_Suc_eq_0_disj)
  qed
qed

lemma findIndex_None: "findIndex p xs = None \<longleftrightarrow> (\<forall>x\<in>set xs. \<not> p x)"
  by (induction xs) (auto split: option.splits)

lemma findIndex_first:
  "i < length xs \<Longrightarrow> p (xs ! i) \<Longrightarrow> \<forall>j<i. \<not> p (xs ! j) \<Longrightarrow> findIndex p xs = Some i"
proof (induction xs arbitrary: i)
  case Nil
  then show ?case by simp
next
  case (Cons x xs)
  show ?case
  proof (cases i)
    case 0
    with Cons.prems show ?thesis by simp
  next
    case (Suc k)
    with Cons.prems have "\<not> p x" by auto
    moreover have "findIndex p xs = Some k"
      using Cons.prems Suc by (intro Cons.IH) auto
    ultimately show ?thesis using Suc by simp
  qed
qed

lemma upsertSession_twice: "upsertSession s (upsertSession s d) = upsertSession s d"
proof (cases "findIndex (\<lambda>x. sessionId x = sessionId s) (sessions d)")
  case None
  let ?ss = "sessions d @ [s]"
  have first: "sessions (upsertSession s d) = ?ss"
    by (simp add: upsertSession_def None recalculateTotals_eq)
  have "\<forall>j<length (sessions d). sessionId (?ss ! j) \<noteq> sessionId s"
    using None by (auto simp: findIndex_None nth_append)
  then have idx: "findIndex (\<lambda>x. sessionId x = sessionId s) ?ss = Some (length (sessions d))"
    by (intro findIndex_first) (auto simp: nth_append)
  show ?thesis
    unfolding upsertSession_def[of s "upsertSession s d"] first idx
    by (simp add: upsertSession_def None recalculateTotals_eq)
next
  case (Some i)
  let ?ss = "(sessions d)[i := s]"
  note fi = findIndex_Some[OF Some]
  have first: "sessions (upsertSession s d) = ?ss"
    by (simp add: upsertSession_def Some recalculateTotals_eq)
  have idx: "findIndex (\<lambda>x. sessionId x = sessionId s) ?ss = Some i"
    using fi by (intro findIndex_first) auto
  show ?thesis
    unfolding upsertSession_def[of s "upsertSession s d"] first idx
    by (simp add: upsertSession_def Some recalculateTotals_eq)
qed

lemma upsertSession_recalculated: "recalculateTotals (upsertSession s d) = upsertSession s d"
  by (simp add: upsertSession_def recalculateTotals_eq split: option.splits)

lemma upsertSession_date: "date (upsertSession s d) = date d"
  by (simp add: upsertSession_def recalculateTotals_eq split: option.splits)


lemma updateSession_twice:
  "updateSession today s (updateSession today s st) = updateSession today s st"
proof (cases "\<exists>cur. currentDayData st = Some cur \<and> date cur = today")
  case True
  then obtain cur where cur: "currentDayData st = Some cur" "date cur = today" by blast
  have one: "updateSession today s st = saveTodayData (upsertSession s cur) st"
    by (simp add: updateSession_def getTodayData_def cur)
  have "updateSession today s (saveTodayData (upsertSession s cur) st)
        = saveTodayData (upsertSession s (upsertSession s cur))
            (saveTodayData (upsertSession s cur) st)"
    by (simp add: updateSession_def getTodayData_def saveTodayData_def upsertSession_date cur)
  then show ?thesis
    by (simp add: one upsertSession_twice saveTodayData_def)
next
  case False
  let ?d = "loadDailyData today st"
  have one: "updateSession today s st = saveTodayData (upsertSession s ?d) st"
    using False
    by (auto simp: updateSession_def getTodayData_def saveTodayData_def split: option.splits)
  show ?thesis
  proof (cases "date ?d = today")
    case True
    have "updateSession today s (saveTodayData (upsertSession s ?d) st)
        = saveTodayData (upsertSession s (upsertSession s ?d))
            (saveTodayData (upsertSession s ?d) st)"
      by (simp add: updateSession_def getTodayData_def saveTodayData_def upsertSession_date True)
    then show ?thesis
      by (simp add: one upsertSession_twice saveTodayData_def)
  next
    case stale: False
    have "updateSession today s (saveTodayData (upsertSession s ?d) st)
        = saveTodayData (upsertSession s ?d) (saveTodayData (upsertSession s ?d) st)"
      using stale
      by (simp add: updateSession_def getTodayData_def upsertSession_date saveTodayData_def
            loadDailyData_def)
    then show ?thesis
      by (simp add: one saveTodayData_def)
  qed
qed

lemma upsertSession_sessions:
  "sessions (upsertSession s d) =
     (case findIndex (\<lambda>x. sessionId x = sessionId s) (sessions d) of
        Some i \<Rightarrow> (sessions d)[i := s]
      | None \<Rightarrow> sessions d @ [s])"
  by (simp add: upsertSession_def recalculateTotals_eq split: option.splits)

lemma upsertSession_member: "s \<in> set (sessions (upsertSession s d))"
proof (cases "findIndex (\<lambda>x. sessionId x = sessionId s) (sessions d)")
  case None
  then show ?thesis by (simp add: upsertSession_sessions)
next
  case (Some i)
  from findIndex_Some[OF Some] have "i < length (sessions d)" by simp
  then show ?thesis by (simp add: upsertSession_sessions Some set_update_memI)
qed

lemma updateSession_cache:
  "currentDayData (updateSession today s st) = Some (upsertSession s (fst (getTodayData today st)))"
  "saveDebounceTimer (updateSession today s st) = Some (upsertSession s (fst (getTodayData today st)))"
  "files (updateSession today s st) = files st"
  by (simp_all add: updateSession_def saveTodayData_def getTodayData_def
      split: prod.splits option.splits)

text \<open>
  \<^bold>\<open>C4.\<close>  Calling \<open>updateSession\<close> a second time with the same session leaves the
  storage service, and so the day's record, exactly as the first call left it.  The
  first call puts the record \<open>upsertSession s d\<close> of today's record \<open>d\<close> into the cache and
  arms the debounce timer with it.  That record holds \<open>s\<close>: if a session of \<open>d\<close> has the
  id of \<open>s\<close>, the first such session is replaced by \<open>s\<close> at its index and the others
  stay as they are; if none has, \<open>s\<close> is appended.  Its \<open>totalTime\<close>, \<open>activeTime\<close>,
  \<open>idleTime\<close>, repositories and languages are those computed from its own session list,
  whatever \<open>d\<close> held in these fields; its date and its email flags are those of \<open>d\<close>.
  Hence the second upsert is the identity and the record is a fixed point of
  \<open>recalculateTotals\<close>.
\<close>

theorem updateSession_idempotent:
  "updateSession today s (updateSession today s st) = updateSession today s st
   \<and> currentDayData (updateSession today s st)
       = Some (upsertSession s (fst (getTodayData today st)))
   \<and> saveDebounceTimer (updateSession today s st)
       = Some (upsertSession s (fst (getTodayData today st)))
   \<and> upsertSession s (upsertSession s d) = upsertSession s d
   \<and> length (sessions (upsertSession s (upsertSession s d)))
       = length (sessions (upsertSession s d))
   \<and> recalculateTotals (upsertSession s d) = upsertSession s d
   \<and> s \<in> set (sessions (upsertSession s d))
   \<and> (i < length (sessions d) \<and> sessionId (sessions d ! i) = sessionId s
        \<and> (\<forall>j<i. sessionId (sessions d ! j) \<noteq> sessionId s)
      \<longrightarrow> sessions (upsertSession s d) = (sessions d)[i := s])
   \<and> ((\<forall>x \<in> set (sessions d). sessionId x \<noteq> sessionId s)
      \<longrightarrow> sessions (upsertSession s d) = sessions d @ [s])
   \<and> totalTime (upsertSession s d)
       = sum_list (map totalDuration (sessions (upsertSession s d)))
   \<and> dayActiveTime (upsertSession s d)
       = sum_list (map activeTime (sessions (upsertSession s d)))
   \<and> dayIdleTime (upsertSession s d)
       = sum_list (map idleTime (sessions (upsertSession s d)))
   \<and> dayRepositories (upsertSession s d)
       = map snd (foldl (\<lambda>m x. foldl aggregateRepo m (repositories x)) []
                    (sessions (upsertSession s d)))
   \<and> dayLanguages (upsertSession s d)
       = foldl (\<lambda>l x. mergeLanguages l (sessionLanguages x)) [] (sessions (upsertSession s d))
   \<and> date (upsertSession s d) = date d
   \<and> emailSent (upsertSession s d) = emailSent d
   \<and> emailSentAt (upsertSession s d) = emailSentAt d"
proof -
  have replaced: "sessions (upsertSession s d) = (sessions d)[i := s]"
    if "i < length (sessions d) \<and> sessionId (sessions d ! i) = sessionId s
        \<and> (\<forall>j<i. sessionId (sessions d ! j) \<noteq> sessionId s)"
  proof -
    from that have "findIndex (\<lambda>x. sessionId x = sessionId s) (sessions d) = Some i"
      by (intro findIndex_first) simp_all
    then show ?thesis by (simp add: upsertSession_sessions)
  qed
  have appended: "sessions (upsertSession s d) = sessions d @ [s]"
    if "\<forall>x \<in> set (sessions d). sessionId x \<noteq> sessionId s"
  proof -
    from that have "findIndex (\<lambda>x. sessionId x = sessionId s) (sessions d) = None"
      by (simp add: findIndex_None)
    then show ?thesis by (simp add: upsertSession_sessions)
  qed
  have fp: "upsertSession s d = recalculateTotals (upsertSession s d)"
    by (simp add: upsertSession_recalculated)
  have totals:
    "totalTime (upsertSession s d) = sum_list (map totalDuration (sessions (upsertSession s d)))"
    "dayActiveTime (upsertSession s d) = sum_list (map activeTime (sessions (upsertSession s d)))"
    "dayIdleTime (upsertSession s d) = sum_list (map idleTime (sessions (upsertSession s d)))"
    "dayRepositories (upsertSession s d)
       = map snd (foldl (\<lambda>m x. foldl aggregateRepo m (repositories x)) []
                    (sessions (upsertSession s d)))"
    "dayLanguages (upsertSession s d)
       = foldl (\<lambda>l x. mergeLanguages l (sessionLanguages x)) [] (sessions (upsertSession s d))"
    by (subst fp, simp add: recalculateTotals_eq)+
  have kept: "date (upsertSession s d) = date d" "emailSent (upsertSession s d) = emailSent d"
    "emailSentAt (upsertSession s d) = emailSentAt d"
    by (simp_all add: upsertSession_def recalculateTotals_eq split: option.splits)
  show ?thesis
    using replaced appended totals kept
    by (simp add: updateSession_twice upsertSession_twice upsertSession_recalculated
        upsertSession_member updateSession_cache)
qed

theorem updateSession_idempotent_witness:
  "1 < length (sessions twoSessionDay)
   \<and> sessionId (sessions twoSessionDay ! 1) = sessionId revisedSession
   \<and> sessionId (sessions twoSessionDay ! 0) \<noteq> sessionId revisedSession
   \<and> sessions (upsertSession revisedSession twoSessionDay) = [sampleSession, revisedSession]
   \<and> totalTime twoSessionDay = 40000
   \<and> totalTime (upsertSession revisedSession twoSessionDay) = 50000
   \<and> list_all (\<lambda>x. sessionId x \<noteq> sessionId (createNewSession 70000 ''session_3''))
        (sessions twoSessionDay)
   \<and> sessions (upsertSession (createNewSession 70000 ''session_3'') twoSessionDay)
       = [sampleSession, laterSession, createNewSession 70000 ''session_3'']
   \<and> totalTime (upsertSession (createNewSession 70000 ''session_3'') twoSessionDay) = 40000"
proof -
  have ss: "sessions twoSessionDay = [sampleSession, laterSession]"
    by (simp add: twoSessionDay_def recalculateTotals_eq)
  have ids: "sessionId sampleSession = ''session_1''" "sessionId laterSession = ''session_2''"
    "sessionId revisedSession = ''session_2''"
    "sessionId (createNewSession 70000 ''session_3'') = ''session_3''"
    by (simp_all add: sampleSession_def laterSession_def revisedSession_def createNewSession_def)
  have durations: "totalDuration sampleSession = 10000" "totalDuration laterSession = 30000"
    "totalDuration revisedSession = 40000"
    "totalDuration (createNewSession 70000 ''session_3'') = 0"
    by (simp_all add: sampleSession_def laterSession_def revisedSession_def createNewSession_def)
  have first: "\<forall>j<1::nat. sessionId (sessions twoSessionDay ! j) \<noteq> sessionId revisedSession"
    by (simp add: ss ids)
  have r: "sessions (upsertSession revisedSession twoSessionDay) = [sampleSession, revisedSession]"
    using updateSession_idempotent [of _ revisedSession _ twoSessionDay 1] first
    by (simp add: ss ids)
  have a: "sessions (upsertSession (createNewSession 70000 ''session_3'') twoSessionDay)
       = [sampleSession, laterSession, createNewSession 70000 ''session_3'']"
    using updateSession_idempotent [of _ "createNewSession 70000 ''session_3''" _ twoSessionDay]
    by (simp add: ss ids)
  have t0: "totalTime twoSessionDay = 40000"
    by (simp add: twoSessionDay_def recalculateTotals_eq durations)
  have t1: "totalTime (upsertSession revisedSession twoSessionDay) = 50000"
    using updateSession_idempotent [of _ revisedSession _ twoSessionDay]
    by (simp add: r durations)
  have t2: "totalTime (upsertSession (createNewSession 70000 ''session_3'') twoSessionDay) = 40000"
    using updateSession_idempotent [of _ "createNewSession 70000 ''session_3''" _ twoSessionDay]
    by (simp add: a durations)
  from r a t0 t1 t2 show ?thesis
    by (simp add: ss ids)
qed

section \<open>Properties of the tracker\<close>

subsection \<open>What each handler leaves unchanged\<close>

lemma exitIdleState_frame [simp]:
  "currentSession (exitIdleState now t) = currentSession t"
  "repoActivityMap (exitIdleState now t) = repoActivityMap t"
  "storage (exitIdleState now t) = storage t"
  "config (exitIdleState now t) = config t"
  "disposables (exitIdleState now t) = disposables t"
  "heartbeatInterval (exitIdleState now t) = heartbeatInterval t"
  by (simp_all add: exitIdleState_def split: option.splits)

lemma enterIdleState_frame [simp]:
  "currentSession (enterIdleState t) = currentSession t"
  "repoActivityMap (enterIdleState t) = repoActivityMap t"
  "storage (enterIdleState t) = storage t"
  by (simp_all add: enterIdleState_def)

lemma finalizeRepoTime_frame [simp]:
  "currentSession (finalizeRepoTime now repo t) = currentSession t"
  "state (finalizeRepoTime now repo t) = state t"
  "storage (finalizeRepoTime now repo t) = storage t"
  by (simp_all add: finalizeRepoTime_def)

lemma recordActivity_frame [simp]:
  "currentSession (recordActivity now t) = currentSession t"
  "storage (recordActivity now t) = storage t"
  by (simp_all add: recordActivity_def Let_def split: option.splits)

lemma recordFileEdit_frame [simp]:
  "currentSession (recordFileEdit f t) = currentSession t"
  "state (recordFileEdit f t) = state t"
  "storage (recordFileEdit f t) = storage t"
  by (simp_all add: recordFileEdit_def split: option.splits)

lemma updateCurrentRepo_frame [simp]:
  "currentSession (updateCurrentRepo now ws fp t) = currentSession t"
  "storage (updateCurrentRepo now ws fp t) = storage t"
  "isTracking (state (updateCurrentRepo now ws fp t)) = isTracking (state t)"
  by (simp_all add: updateCurrentRepo_def Let_def split: option.splits prod.splits)

lemma handleEditorChange_frame [simp]:
  "currentSession (handleEditorChange now ws ed t) = currentSession t"
  "storage (handleEditorChange now ws ed t) = storage t"
  by (simp_all add: handleEditorChange_def Let_def split: option.splits prod.splits)

lemma handleWindowStateChange_frame [simp]:
  "currentSession (handleWindowStateChange now f t) = currentSession t"
  "storage (handleWindowStateChange now f t) = storage t"
  by (simp_all add: handleWindowStateChange_def Let_def)

lemma updateTimeCounters_frame [simp]:
  "state (updateTimeCounters now t) = state t"
  "repoActivityMap (updateTimeCounters now t) = repoActivityMap t"
  "storage (updateTimeCounters now t) = storage t"
  "repositories (currentSession (updateTimeCounters now t)) = repositories (currentSession t)"
  "startTime (currentSession (updateTimeCounters now t)) = startTime (currentSession t)"
  by (simp_all add: updateTimeCounters_def Let_def split: option.splits)

lemma saveCurrentSession_frame [simp]:
  "state (saveCurrentSession now t) = state t"
  "repoActivityMap (saveCurrentSession now t) = repoActivityMap t"
  "totalDuration (currentSession (saveCurrentSession now t)) = totalDuration (currentSession t)"
  "activeTime (currentSession (saveCurrentSession now t)) = activeTime (currentSession t)"
  "idleTime (currentSession (saveCurrentSession now t)) = idleTime (currentSession t)"
  "repositories (currentSession (saveCurrentSession now t)) = map snd (repoActivityMap t)"
  by (simp_all add: saveCurrentSession_def Let_def)

subsection \<open>Conservation\<close>

lemma updateTimeCounters_conserved: "conserved (currentSession (updateTimeCounters now t))"
  by (simp add: updateTimeCounters_def conserved_def Let_def split: option.splits)

lemma createNewSession_conserved: "conserved (createNewSession now sid)"
  by (simp add: conserved_def createNewSession_def)

lemma step_conserved:
  assumes "conserved (currentSession t)"
  shows "conserved (currentSession (step t e))"
proof (cases e)
  case (Start now ws sid)
  with assms show ?thesis
    by (simp add: start_def Let_def createNewSession_conserved)
next
  case (Stop now)
  with assms show ?thesis
    by (simp add: stop_def Let_def conserved_def updateTimeCounters_conserved[unfolded conserved_def])
next
  case (Heartbeat now focused sid)
  with assms show ?thesis
    by (simp add: heartbeat_def handleDayChange_def Let_def
        createNewSession_conserved[unfolded conserved_def]
        conserved_def updateTimeCounters_conserved[unfolded conserved_def])
next
  case (GetCurrentSession now)
  with assms show ?thesis
    using updateTimeCounters_conserved[of now t]
    by (simp add: getCurrentSession_def Let_def conserved_def)
qed (use assms in simp_all)

lemma run_conserved:
  "conserved (currentSession t) \<Longrightarrow> conserved (currentSession (run t events))"
  unfolding run_def
  by (induction events arbitrary: t) (simp_all add: step_conserved)

lemma recalculateTotals_conserved:
  assumes "list_all conserved ss"
  shows "sum_list (map activeTime ss) + sum_list (map idleTime ss) = sum_list (map totalDuration ss)"
  using assms by (induction ss) (auto simp: conserved_def)

subsection \<open>Sessions held by the storage service\<close>

lemma upsertSession_all:
  assumes "list_all P (sessions d)" "P s"
  shows "list_all P (sessions (upsertSession s d))"
proof -
  have "set (sessions (upsertSession s d)) \<subseteq> insert s (set (sessions d))"
    using set_update_subset_insert[of "sessions d" _ s]
    by (auto simp: upsertSession_def recalculateTotals_eq split: option.splits)
  with assms show ?thesis
    by (auto simp: list_all_iff)
qed

lemma loadDailyData_all:
  assumes "storageAll P st"
  shows "list_all P (sessions (loadDailyData k st))"
  using assms
  by (auto simp: loadDailyData_def storageAll_def createEmptyDailyData_def
      split: option.splits fileContent.splits)

lemma getTodayData_all:
  assumes "storageAll P st"
  shows "list_all P (sessions (fst (getTodayData today st)))"
    and "storageAll P (snd (getTodayData today st))"
proof -
  have l: "list_all P (sessions (loadDailyData today st))"
    using assms by (rule loadDailyData_all)
  show "list_all P (sessions (fst (getTodayData today st)))"
    using assms l by (auto simp: getTodayData_def storageAll_def split: option.splits)
  show "storageAll P (snd (getTodayData today st))"
    using assms l by (auto simp: getTodayData_def storageAll_def split: option.splits)
qed

lemma saveTodayData_all:
  assumes "storageAll P st" "list_all P (sessions d)"
  shows "storageAll P (saveTodayData d st)"
  using assms by (simp add: saveTodayData_def storageAll_def)

lemma updateSession_all:
  assumes "storageAll P st" "P s"
  shows "storageAll P (updateSession today s st)"
proof -
  obtain d st' where g: "getTodayData today st = (d, st')" by (cases "getTodayData today st")
  with getTodayData_all[OF assms(1), of today]
  have "list_all P (sessions d)" "storageAll P st'" by simp_all
  then have "storageAll P (saveTodayData (upsertSession s d) st')"
    using assms(2) by (intro saveTodayData_all upsertSession_all)
  with g show ?thesis by (simp add: updateSession_def)
qed

lemma saveDailyData_all:
  assumes "storageAll P st" "list_all P (sessions d)"
  shows "storageAll P (saveDailyData d st)"
  using assms by (simp add: saveDailyData_def storageAll_def)

lemma forceSave_all:
  assumes "storageAll P st"
  shows "storageAll P (forceSave st)"
proof (cases "currentDayData st")
  case None
  with assms show ?thesis by (simp add: forceSave_def storageAll_def)
next
  case (Some cur)
  with assms have c: "list_all P (sessions cur)" by (simp add: storageAll_def)
  have "storageAll P (st\<lparr> saveDebounceTimer := None \<rparr>)"
    using assms by (simp add: storageAll_def)
  then have "storageAll P (saveDailyData cur (st\<lparr> saveDebounceTimer := None \<rparr>))"
    using c by (rule saveDailyData_all)
  with Some show ?thesis by (simp add: forceSave_def)
qed

lemma debounceFires_all:
  assumes "storageAll P st"
  shows "storageAll P (debounceFires st)"
proof (cases "saveDebounceTimer st")
  case None
  with assms show ?thesis by (simp add: debounceFires_def)
next
  case (Some d)
  with assms have "list_all P (sessions d)" by (simp add: storageAll_def)
  with assms have "storageAll P (saveDailyData d st)" by (rule saveDailyData_all)
  then have "storageAll P ((saveDailyData d st)\<lparr> saveDebounceTimer := None \<rparr>)"
    by (simp add: storageAll_def)
  with Some show ?thesis by (simp add: debounceFires_def)
qed

text \<open>The session that \<open>saveCurrentSession\<close> hands to the storage service.\<close>

lemma saveCurrentSession_all:
  assumes "storageAll P (storage t)"
    and "P ((currentSession t)\<lparr> repositories := map snd (repoActivityMap t), endTime := Some now \<rparr>)"
  shows "storageAll P (storage (saveCurrentSession now t))"
proof -
  from assms have "storageAll P (updateSession (dateString now)
      ((currentSession t)\<lparr> repositories := map snd (repoActivityMap t), endTime := Some now \<rparr>)
      (storage t))"
    by (rule updateSession_all)
  then show ?thesis by (simp add: saveCurrentSession_def Let_def)
qed

text \<open>The storage changes in \<open>stop\<close> and \<open>heartbeat\<close> only; both save the current
  session, \<open>stop\<close> and the heartbeat of an unchanged day after \<open>updateTimeCounters\<close>.\<close>

lemma stop_all:
  assumes "storageAll P (storage t)"
    and "\<And>t'. repoActivityMap t' = repoActivityMap (stop now t) \<Longrightarrow>
           P ((currentSession (updateTimeCounters now t'))
                \<lparr> repositories := map snd (repoActivityMap t'), endTime := Some now \<rparr>)"
  shows "storageAll P (storage (stop now t))"
proof (cases "isTracking (state t)")
  case False
  with assms(1) show ?thesis by (simp add: stop_def)
next
  case True
  define t1 where "t1 = (case currentRepo (state t) of
                     Some repo \<Rightarrow> finalizeRepoTime now repo t | None \<Rightarrow> t)"
  define t2 where "t2 = updateTimeCounters now t1"
  have m: "repoActivityMap t1 = repoActivityMap (stop now t)"
    using True by (simp add: stop_def Let_def t1_def)
  have "storage t1 = storage t" by (simp add: t1_def split: option.splits)
  then have "storageAll P (storage t2)" using assms(1) by (simp add: t2_def)
  moreover have "P ((currentSession t2)
      \<lparr> repositories := map snd (repoActivityMap t2), endTime := Some now \<rparr>)"
    using assms(2)[OF m] by (simp add: t2_def)
  ultimately have "storageAll P (storage (saveCurrentSession now t2))"
    by (rule saveCurrentSession_all)
  then have "storageAll P (forceSave (storage (saveCurrentSession now t2)))"
    by (rule forceSave_all)
  then show ?thesis using True by (simp add: stop_def Let_def t1_def t2_def)
qed

lemma heartbeat_all:
  assumes "storageAll P (storage t)"
    and "P ((currentSession t)\<lparr> repositories := map snd (repoActivityMap t), endTime := Some now \<rparr>)"
    and "\<And>t'. repoActivityMap t' = repoActivityMap t \<Longrightarrow>
           P ((currentSession (updateTimeCounters now t'))
                \<lparr> repositories := map snd (repoActivityMap t'), endTime := Some now \<rparr>)"
  shows "storageAll P (storage (heartbeat now focused sid t))"
proof (cases "isTracking (state t)")
  case False
  with assms(1) show ?thesis by (simp add: heartbeat_def)
next
  case True
  show ?thesis
  proof (cases "dateString now = dateString (startTime (currentSession t))")
    case False
    have "storageAll P (forceSave (storage (saveCurrentSession now t)))"
      using assms(1,2) by (intro forceSave_all saveCurrentSession_all)
    with True False show ?thesis by (simp add: heartbeat_def handleDayChange_def Let_def)
  next
    case same: True
    define t1 where "t1 = (if \<not> isIdle (state t) \<and>
        now - lastActivityTime (state t) > idleThresholdMinutes (config t) * 60 * 1000
        then enterIdleState t else t)"
    define t2 where "t2 = updateTimeCounters now t1"
    have m: "repoActivityMap t1 = repoActivityMap t" by (simp add: t1_def)
    have "storage t1 = storage t" by (simp add: t1_def)
    then have "storageAll P (storage t2)" using assms(1) by (simp add: t2_def)
    moreover have "P ((currentSession t2)
        \<lparr> repositories := map snd (repoActivityMap t2), endTime := Some now \<rparr>)"
      using assms(3)[OF m] by (simp add: t2_def)
    ultimately have "storageAll P (storage (saveCurrentSession now t2))"
      by (rule saveCurrentSession_all)
    then have "storageAll P
        (snd (getTodayData (dateString now) (storage (saveCurrentSession now t2))))"
      by (rule getTodayData_all)
    then show ?thesis using True same by (simp add: heartbeat_def Let_def t1_def t2_def)
  qed
qed

lemma step_storage:
  "storage (step t e) = storage t
   \<or> (\<exists>now. e = Stop now \<and> storage (step t e) = storage (stop now t))
   \<or> (\<exists>now focused sid. e = Heartbeat now focused sid
         \<and> storage (step t e) = storage (heartbeat now focused sid t))
   \<or> (e = DebounceTimer \<and> storage (step t e) = debounceFires (storage t))"
  by (cases e) (simp_all add: start_def Let_def getCurrentSession_def)

subsection \<open>Conserved sessions in the storage service\<close>

lemma step_storageConserved:
  assumes "storageAll conserved (storage t)" "conserved (currentSession t)"
  shows "storageAll conserved (storage (step t e))"
proof -
  have upd: "conserved ((currentSession (updateTimeCounters now t'))
                \<lparr> repositories := r, endTime := Some now \<rparr>)" for now t' r
    using updateTimeCounters_conserved[of now t'] by (simp add: conserved_def)
  have cur: "conserved ((currentSession t)\<lparr> repositories := r, endTime := Some now \<rparr>)" for now r
    using assms(2) by (simp add: conserved_def)
  from step_storage[of t e] show ?thesis
  proof (elim disjE exE conjE)
    assume "storage (step t e) = storage t"
    with assms(1) show ?thesis by simp
  next
    fix now assume "storage (step t e) = storage (stop now t)"
    moreover have "storageAll conserved (storage (stop now t))"
      using assms(1) upd by (rule stop_all)
    ultimately show ?thesis by simp
  next
    fix now focused sid
    assume "storage (step t e) = storage (heartbeat now focused sid t)"
    moreover have "storageAll conserved (storage (heartbeat now focused sid t))"
      using assms(1) cur upd by (rule heartbeat_all)
    ultimately show ?thesis by simp
  next
    assume "storage (step t e) = debounceFires (storage t)"
    moreover have "storageAll conserved (debounceFires (storage t))"
      using assms(1) by (rule debounceFires_all)
    ultimately show ?thesis by simp
  qed
qed

lemma run_storageConserved:
  assumes "storageAll conserved (storage t)" "conserved (currentSession t)"
  shows "storageAll conserved (storage (run t events))"
  using assms
proof (induction events arbitrary: t)
  case Nil
  then show ?case by (simp add: run_def)
next
  case (Cons e es)
  have "storageAll conserved (storage (step t e))"
    using Cons.prems by (rule step_storageConserved)
  moreover have "conserved (currentSession (step t e))"
    using Cons.prems(2) by (rule step_conserved)
  ultimately have "storageAll conserved (storage (run (step t e) es))"
    by (rule Cons.IH)
  then show ?case by (simp add: run_def)
qed

text \<open>
  \<^bold>\<open>C5.\<close>  After \<open>recalculateTotals\<close> the record's \<open>totalTime\<close> is the sum of
  the \<open>totalDuration\<close> of its sessions, and its \<open>activeTime\<close> and \<open>idleTime\<close> add up
  to \<open>totalTime\<close> when each of its sessions is conserved.  Sessions of the engine are:
  \<open>updateTimeCounters\<close> always leaves the current session with
  \<open>activeTime + idleTime = totalDuration\<close>, whether or not an idle interval is in
  progress, so the current session is conserved after every sequence of events from
  the construction of the tracker on, and a storage service whose sessions are conserved
  when the tracker is constructed (an empty one, for instance) holds only conserved
  sessions ever after.
\<close>

theorem conservation:
  "totalTime (recalculateTotals d) = sum_list (map totalDuration (sessions d))
   \<and> (list_all conserved (sessions d) \<longrightarrow>
        dayActiveTime (recalculateTotals d) + dayIdleTime (recalculateTotals d)
          = totalTime (recalculateTotals d))
   \<and> conserved (currentSession (updateTimeCounters now t))
   \<and> conserved (currentSession (run (newTrackerService st cfg now0 focused sid) events))
   \<and> (storageAll conserved st \<longrightarrow>
        storageAll conserved (storage (run (newTrackerService st cfg now0 focused sid) events)))"
proof (intro conjI impI)
  show "totalTime (recalculateTotals d) = sum_list (map totalDuration (sessions d))"
    by (simp add: recalculateTotals_eq)
next
  assume "list_all conserved (sessions d)"
  then show "dayActiveTime (recalculateTotals d) + dayIdleTime (recalculateTotals d)
          = totalTime (recalculateTotals d)"
    by (simp add: recalculateTotals_eq recalculateTotals_conserved)
next
  show "conserved (currentSession (updateTimeCounters now t))"
    by (rule updateTimeCounters_conserved)
next
  have c: "conserved (currentSession (newTrackerService st cfg now0 focused sid))"
    by (simp add: newTrackerService_def createNewSession_conserved)
  then show "conserved (currentSession (run (newTrackerService st cfg now0 focused sid) events))"
    by (rule run_conserved)
  assume "storageAll conserved st"
  then have "storageAll conserved (storage (newTrackerService st cfg now0 focused sid))"
    by (simp add: newTrackerService_def)
  then show "storageAll conserved (storage (run (newTrackerService st cfg now0 focused sid) events))"
    using c by (rule run_storageConserved)
qed

theorem conservation_witness:
  "list_all conserved (sessions sampleDay)
   \<and> dayActiveTime (recalculateTotals sampleDay) + dayIdleTime (recalculateTotals sampleDay)
       = totalTime (recalculateTotals sampleDay)
   \<and> storageAll conserved emptyStorage
   \<and> storageAll conserved (storage (run freshTracker
         [Start 0 appWorkspace ''session_1'', Heartbeat 30000 True ''session_2'']))"
proof -
  have "list_all conserved (sessions sampleDay)"
    by (simp add: sampleDay_def sampleSession_def conserved_def)
  moreover have "storageAll conserved emptyStorage"
    by (simp add: storageAll_def emptyStorage_def)
  ultimately show ?thesis
    using conservation [of sampleDay 0 freshTracker emptyStorage defaultConfig 0 True
        "''session_0''" "[Start 0 appWorkspace ''session_1'', Heartbeat 30000 True ''session_2'']"]
    by (simp add: freshTracker_def)
qed

subsection \<open>File lists without duplicates\<close>

lemma values_update:
  "snd ` set (AList.update k v m) \<subseteq> insert v (snd ` set m)"
  by (induction m) auto

lemma values_update_all:
  assumes "Q v" "\<forall>a \<in> snd ` set m. Q a"
  shows "\<forall>a \<in> snd ` set (AList.update k v m). Q a"
  using assms values_update[of k v m] by blast

lemma values_map_of: "map_of m k = Some a \<Longrightarrow> a \<in> snd ` set m"
  by (force dest: map_of_SomeD)

lemma billActivity_filesEdited [simp]:
  "filesEdited (billActivity repo ms a) = filesEdited a"
  by (simp add: billActivity_def split: option.splits)

lemma addTimeToRepo_distinct:
  assumes "\<forall>a \<in> snd ` set m. distinct (filesEdited a)"
  shows "\<forall>a \<in> snd ` set (addTimeToRepo repo ms m). distinct (filesEdited a)"
proof (cases "map_of m (repoKey repo)")
  case None
  have "\<forall>a \<in> snd ` set (AList.update (repoKey repo) (billActivity repo ms (newActivity repo)) m).
          distinct (filesEdited a)"
    using assms by (intro values_update_all) (simp_all add: newActivity_def)
  with None show ?thesis by (simp add: addTimeToRepo_def)
next
  case (Some a)
  then have "distinct (filesEdited a)" using assms values_map_of by fastforce
  then have "\<forall>a \<in> snd ` set (AList.update (repoKey repo) (billActivity repo ms a) m).
          distinct (filesEdited a)"
    using assms by (intro values_update_all) simp_all
  with Some show ?thesis by (simp add: addTimeToRepo_def)
qed

lemma recordActivity_distinct:
  assumes "\<forall>a \<in> snd ` set (repoActivityMap t). distinct (filesEdited a)"
  shows "\<forall>a \<in> snd ` set (repoActivityMap (recordActivity now t)). distinct (filesEdited a)"
proof -
  have "repoActivityMap (recordActivity now t) = repoActivityMap t
        \<or> (\<exists>repo ms. repoActivityMap (recordActivity now t) = addTimeToRepo repo ms (repoActivityMap t))"
    by (auto simp: recordActivity_def Let_def split: option.splits)
  with assms show ?thesis using addTimeToRepo_distinct by metis
qed

lemma recordFileEdit_distinct:
  assumes "\<forall>a \<in> snd ` set (repoActivityMap t). distinct (filesEdited a)"
  shows "\<forall>a \<in> snd ` set (repoActivityMap (recordFileEdit f t)). distinct (filesEdited a)"
proof (cases "currentRepo (state t)")
  case None
  with assms show ?thesis by (simp add: recordFileEdit_def)
next
  case (Some repo)
  show ?thesis
  proof (cases "map_of (repoActivityMap t) (repoKey repo)")
    case None
    with assms Some show ?thesis by (simp add: recordFileEdit_def)
  next
    case act: (Some a)
    then have "distinct (filesEdited a)" using assms values_map_of by fastforce
    then have "f \<notin> set (filesEdited a) \<Longrightarrow>
        \<forall>x \<in> snd ` set (AList.update (repoKey repo) (a\<lparr>filesEdited := filesEdited a @ [f]\<rparr>)
                            (repoActivityMap t)). distinct (filesEdited x)"
      using assms by (intro values_update_all) simp_all
    with assms Some act show ?thesis
      by (simp add: recordFileEdit_def)
  qed
qed

lemma updateCurrentRepo_distinct:
  assumes "\<forall>a \<in> snd ` set (repoActivityMap t). distinct (filesEdited a)"
  shows "\<forall>a \<in> snd ` set (repoActivityMap (updateCurrentRepo now ws fp t)). distinct (filesEdited a)"
proof -
  have "repoActivityMap (updateCurrentRepo now ws fp t) = repoActivityMap t
        \<or> (\<exists>repo ms. repoActivityMap (updateCurrentRepo now ws fp t)
              = addTimeToRepo repo ms (repoActivityMap t))"
    by (auto simp: updateCurrentRepo_def Let_def finalizeRepoTime_def split: option.splits prod.splits)
  with assms show ?thesis using addTimeToRepo_distinct by metis
qed

lemma handleEditorChange_distinct:
  assumes "\<forall>a \<in> snd ` set (repoActivityMap t). distinct (filesEdited a)"
  shows "\<forall>a \<in> snd ` set (repoActivityMap (handleEditorChange now ws ed t)). distinct (filesEdited a)"
proof -
  have "repoActivityMap (handleEditorChange now ws ed t) = repoActivityMap (recordActivity now t)
        \<or> (\<exists>fp. repoActivityMap (handleEditorChange now ws ed t)
              = repoActivityMap (updateCurrentRepo now ws fp (recordActivity now t)))"
    by (auto simp: handleEditorChange_def Let_def split: option.splits prod.splits)
  with assms show ?thesis
    using recordActivity_distinct updateCurrentRepo_distinct by metis
qed

lemma handleWindowStateChange_distinct:
  assumes "\<forall>a \<in> snd ` set (repoActivityMap t). distinct (filesEdited a)"
  shows "\<forall>a \<in> snd ` set (repoActivityMap (handleWindowStateChange now f t)). distinct (filesEdited a)"
proof -
  let ?t1 = "t\<lparr> state := (state t)\<lparr> isWindowFocused := f \<rparr> \<rparr>"
  have "repoActivityMap (handleWindowStateChange now f t) = repoActivityMap t
        \<or> repoActivityMap (handleWindowStateChange now f t) = repoActivityMap (recordActivity now ?t1)"
    by (auto simp: handleWindowStateChange_def Let_def)
  moreover have "\<forall>a \<in> snd ` set (repoActivityMap (recordActivity now ?t1)). distinct (filesEdited a)"
    using assms by (intro recordActivity_distinct) simp
  ultimately show ?thesis using assms by metis
qed


lemma start_distinct:
  assumes "\<forall>a \<in> snd ` set (repoActivityMap t). distinct (filesEdited a)"
  shows "\<forall>a \<in> snd ` set (repoActivityMap (start now ws sid t)). distinct (filesEdited a)"
proof (cases "isTracking (state t)")
  case True
  with assms show ?thesis by (simp add: start_def)
next
  case False
  then obtain x where x: "start now ws sid t = updateCurrentRepo now ws None x"
    "repoActivityMap x = repoActivityMap t"
    by (simp add: start_def Let_def)
  from assms x(2) have "\<forall>a \<in> snd ` set (repoActivityMap (updateCurrentRepo now ws None x)).
      distinct (filesEdited a)"
    by (intro updateCurrentRepo_distinct) simp
  with x(1) show ?thesis by simp
qed

lemma start_repositories:
  "repositories (currentSession (start now ws sid t)) = repositories (currentSession t)
   \<or> repositories (currentSession (start now ws sid t)) = []"
  by (simp add: start_def Let_def createNewSession_def)

lemma stop_distinct:
  assumes "\<forall>a \<in> snd ` set (repoActivityMap t). distinct (filesEdited a)"
  shows "\<forall>a \<in> snd ` set (repoActivityMap (stop now t)). distinct (filesEdited a)"
proof -
  have "repoActivityMap (stop now t) = repoActivityMap t
        \<or> (\<exists>repo ms. repoActivityMap (stop now t) = addTimeToRepo repo ms (repoActivityMap t))"
    by (auto simp: stop_def Let_def finalizeRepoTime_def split: option.splits)
  with assms show ?thesis using addTimeToRepo_distinct by metis
qed

lemma stop_repositories:
  "repositories (currentSession (stop now t)) = repositories (currentSession t)
   \<or> repositories (currentSession (stop now t)) = map snd (repoActivityMap (stop now t))"
  by (simp add: stop_def Let_def split: option.splits)

lemma heartbeat_map:
  "repoActivityMap (heartbeat now focused sid t) = repoActivityMap t
   \<or> repoActivityMap (heartbeat now focused sid t) = []"
  by (auto simp: heartbeat_def handleDayChange_def Let_def)

lemma heartbeat_distinct:
  assumes "\<forall>a \<in> snd ` set (repoActivityMap t). distinct (filesEdited a)"
  shows "\<forall>a \<in> snd ` set (repoActivityMap (heartbeat now focused sid t)). distinct (filesEdited a)"
proof -
  from heartbeat_map[of now focused sid t] show ?thesis
  proof
    assume "repoActivityMap (heartbeat now focused sid t) = repoActivityMap t"
    with assms show ?thesis by simp
  next
    assume "repoActivityMap (heartbeat now focused sid t) = []"
    then show ?thesis by simp
  qed
qed

lemma heartbeat_repositories:
  "repositories (currentSession (heartbeat now focused sid t)) = repositories (currentSession t)
   \<or> repositories (currentSession (heartbeat now focused sid t))
       = map snd (repoActivityMap (heartbeat now focused sid t))
   \<or> repositories (currentSession (heartbeat now focused sid t)) = []"
  by (simp add: heartbeat_def handleDayChange_def Let_def createNewSession_def)

lemma liveFilesDistinctI:
  assumes "liveFilesDistinct t"
    and "\<forall>a \<in> snd ` set (repoActivityMap t'). distinct (filesEdited a)"
    and "repositories (currentSession t') = repositories (currentSession t)
         \<or> repositories (currentSession t') = map snd (repoActivityMap t')
         \<or> repositories (currentSession t') = []"
  shows "liveFilesDistinct t'"
proof -
  have "\<forall>a \<in> set (repositories (currentSession t')). distinct (filesEdited a)"
    using assms(3)
  proof (elim disjE)
    assume "repositories (currentSession t') = repositories (currentSession t)"
    with assms(1) show ?thesis by (simp add: liveFilesDistinct_def)
  next
    assume "repositories (currentSession t') = map snd (repoActivityMap t')"
    with assms(2) show ?thesis by simp
  next
    assume "repositories (currentSession t') = []"
    then show ?thesis by simp
  qed
  with assms(2) show ?thesis by (simp add: liveFilesDistinct_def)
qed

lemma pushIfAbsent_distinct: "distinct xs \<Longrightarrow> distinct (pushIfAbsent xs x)"
  by (simp add: pushIfAbsent_def)

lemma foldl_pushIfAbsent_distinct: "distinct xs \<Longrightarrow> distinct (foldl pushIfAbsent xs ys)"
  by (induction ys arbitrary: xs) (simp_all add: pushIfAbsent_distinct)

lemma aggregateRepo_distinct:
  assumes "\<forall>r \<in> snd ` set m. distinct (sumFilesEdited r)" "distinct (filesEdited repo)"
  shows "\<forall>r \<in> snd ` set (aggregateRepo m repo). distinct (sumFilesEdited r)"
proof (cases "map_of m (repoPath repo)")
  case None
  have "\<forall>r \<in> snd ` set (AList.update (repoPath repo) (newSummary repo) m).
          distinct (sumFilesEdited r)"
    using assms by (intro values_update_all) (simp_all add: newSummary_def)
  with None show ?thesis by (simp add: aggregateRepo_def)
next
  case (Some existing)
  then have "distinct (sumFilesEdited existing)" using assms(1) values_map_of by fastforce
  then have "distinct (sumFilesEdited (mergeIntoSummary existing repo))"
    by (simp add: mergeIntoSummary_def foldl_pushIfAbsent_distinct)
  then have "\<forall>r \<in> snd ` set (AList.update (repoPath repo) (mergeIntoSummary existing repo) m).
          distinct (sumFilesEdited r)"
    using assms by (intro values_update_all) simp_all
  with Some show ?thesis by (simp add: aggregateRepo_def)
qed

lemma foldl_aggregateRepo_distinct:
  assumes "\<forall>r \<in> snd ` set m. distinct (sumFilesEdited r)"
    "\<forall>r \<in> set repos. distinct (filesEdited r)"
  shows "\<forall>r \<in> snd ` set (foldl aggregateRepo m repos). distinct (sumFilesEdited r)"
  using assms
proof (induction repos arbitrary: m)
  case Nil
  then show ?case by simp
next
  case (Cons repo repos)
  have "\<forall>r \<in> snd ` set (aggregateRepo m repo). distinct (sumFilesEdited r)"
    using Cons.prems by (intro aggregateRepo_distinct) simp_all
  moreover have "\<forall>r \<in> set repos. distinct (filesEdited r)"
    using Cons.prems by simp
  ultimately have "\<forall>r \<in> snd ` set (foldl aggregateRepo (aggregateRepo m repo) repos).
      distinct (sumFilesEdited r)"
    by (rule Cons.IH)
  then show ?case by simp
qed

lemma foldl_sessions_distinct:
  assumes "\<forall>r \<in> snd ` set m. distinct (sumFilesEdited r)"
    "\<forall>s \<in> set ss. \<forall>r \<in> set (repositories s). distinct (filesEdited r)"
  shows "\<forall>r \<in> snd ` set (foldl (\<lambda>m s. foldl aggregateRepo m (repositories s)) m ss).
           distinct (sumFilesEdited r)"
  using assms
proof (induction ss arbitrary: m)
  case Nil
  then show ?case by simp
next
  case (Cons s ss)
  have "\<forall>r \<in> snd ` set (foldl aggregateRepo m (repositories s)). distinct (sumFilesEdited r)"
    using Cons.prems by (intro foldl_aggregateRepo_distinct) simp_all
  moreover have "\<forall>s \<in> set ss. \<forall>r \<in> set (repositories s). distinct (filesEdited r)"
    using Cons.prems by simp
  ultimately have "\<forall>r \<in> snd ` set (foldl (\<lambda>m s. foldl aggregateRepo m (repositories s))
      (foldl aggregateRepo m (repositories s)) ss). distinct (sumFilesEdited r)"
    by (rule Cons.IH)
  then show ?case by simp
qed



lemma step_liveFilesDistinct:
  assumes "liveFilesDistinct t"
  shows "liveFilesDistinct (step t e)"
proof -
  have m: "\<forall>a \<in> snd ` set (repoActivityMap t). distinct (filesEdited a)"
    using assms by (simp add: liveFilesDistinct_def)
  show ?thesis
  proof (cases e)
    case (Start now ws sid)
    have "liveFilesDistinct (start now ws sid t)"
    proof (rule liveFilesDistinctI[OF assms])
      show "\<forall>a \<in> snd ` set (repoActivityMap (start now ws sid t)). distinct (filesEdited a)"
        by (rule start_distinct[OF m])
      show "repositories (currentSession (start now ws sid t)) = repositories (currentSession t)
         \<or> repositories (currentSession (start now ws sid t)) = map snd (repoActivityMap (start now ws sid t))
         \<or> repositories (currentSession (start now ws sid t)) = []"
        using start_repositories[of now ws sid t] by blast
    qed
    with Start show ?thesis by simp
  next
    case (Stop now)
    have "liveFilesDistinct (stop now t)"
    proof (rule liveFilesDistinctI[OF assms])
      show "\<forall>a \<in> snd ` set (repoActivityMap (stop now t)). distinct (filesEdited a)"
        by (rule stop_distinct[OF m])
      show "repositories (currentSession (stop now t)) = repositories (currentSession t)
         \<or> repositories (currentSession (stop now t)) = map snd (repoActivityMap (stop now t))
         \<or> repositories (currentSession (stop now t)) = []"
        using stop_repositories[of now t] by blast
    qed
    with Stop show ?thesis by simp
  next
    case (Heartbeat now focused sid)
    have "liveFilesDistinct (heartbeat now focused sid t)"
    proof (rule liveFilesDistinctI[OF assms])
      show "\<forall>a \<in> snd ` set (repoActivityMap (heartbeat now focused sid t)). distinct (filesEdited a)"
        by (rule heartbeat_distinct[OF m])
      show "repositories (currentSession (heartbeat now focused sid t)) = repositories (currentSession t)
         \<or> repositories (currentSession (heartbeat now focused sid t)) = map snd (repoActivityMap (heartbeat now focused sid t))
         \<or> repositories (currentSession (heartbeat now focused sid t)) = []"
        by (rule heartbeat_repositories)
    qed
    with Heartbeat assms show ?thesis by simp
  next
    case (GetCurrentSession now)
    have "liveFilesDistinct (getCurrentSession now t)"
    proof (rule liveFilesDistinctI[OF assms])
      show "\<forall>a \<in> snd ` set (repoActivityMap (getCurrentSession now t)). distinct (filesEdited a)"
        using m by (simp add: getCurrentSession_def Let_def)
      show "repositories (currentSession (getCurrentSession now t)) = repositories (currentSession t)
         \<or> repositories (currentSession (getCurrentSession now t))
             = map snd (repoActivityMap (getCurrentSession now t))
         \<or> repositories (currentSession (getCurrentSession now t)) = []"
        by (simp add: getCurrentSession_def Let_def)
    qed
    with GetCurrentSession show ?thesis by simp
  next
    case (DidChangeWindowState now focused)
    have "liveFilesDistinct (handleWindowStateChange now focused t)"
    proof (rule liveFilesDistinctI[OF assms])
      show "\<forall>a \<in> snd ` set (repoActivityMap (handleWindowStateChange now focused t)). distinct (filesEdited a)"
        by (rule handleWindowStateChange_distinct[OF m])
      show "repositories (currentSession (handleWindowStateChange now focused t)) = repositories (currentSession t)
         \<or> repositories (currentSession (handleWindowStateChange now focused t)) = map snd (repoActivityMap (handleWindowStateChange now focused t))
         \<or> repositories (currentSession (handleWindowStateChange now focused t)) = []"
        by simp
    qed
    with DidChangeWindowState assms show ?thesis by simp
  next
    case (DidChangeTextDocument now n)
    have "liveFilesDistinct (recordActivity now t)"
    proof (rule liveFilesDistinctI[OF assms])
      show "\<forall>a \<in> snd ` set (repoActivityMap (recordActivity now t)). distinct (filesEdited a)"
        by (rule recordActivity_distinct[OF m])
      show "repositories (currentSession (recordActivity now t)) = repositories (currentSession t)
         \<or> repositories (currentSession (recordActivity now t)) = map snd (repoActivityMap (recordActivity now t))
         \<or> repositories (currentSession (recordActivity now t)) = []"
        by simp
    qed
    with DidChangeTextDocument assms show ?thesis by simp
  next
    case (DidChangeActiveTextEditor now ws ed)
    have "liveFilesDistinct (handleEditorChange now ws ed t)"
    proof (rule liveFilesDistinctI[OF assms])
      show "\<forall>a \<in> snd ` set (repoActivityMap (handleEditorChange now ws ed t)). distinct (filesEdited a)"
        by (rule handleEditorChange_distinct[OF m])
      show "repositories (currentSession (handleEditorChange now ws ed t)) = repositories (currentSession t)
         \<or> repositories (currentSession (handleEditorChange now ws ed t)) = map snd (repoActivityMap (handleEditorChange now ws ed t))
         \<or> repositories (currentSession (handleEditorChange now ws ed t)) = []"
        by simp
    qed
    with DidChangeActiveTextEditor assms show ?thesis by simp
  next
    case (DidSaveTextDocument now f)
    have "liveFilesDistinct (recordFileEdit f (recordActivity now t))"
    proof (rule liveFilesDistinctI[OF assms])
      show "\<forall>a \<in> snd ` set (repoActivityMap (recordFileEdit f (recordActivity now t))). distinct (filesEdited a)"
        by (rule recordFileEdit_distinct[OF recordActivity_distinct[OF m]])
      show "repositories (currentSession (recordFileEdit f (recordActivity now t))) = repositories (currentSession t)
         \<or> repositories (currentSession (recordFileEdit f (recordActivity now t))) = map snd (repoActivityMap (recordFileEdit f (recordActivity now t)))
         \<or> repositories (currentSession (recordFileEdit f (recordActivity now t))) = []"
        by simp
    qed
    with DidSaveTextDocument assms show ?thesis by simp
  next
    case (DidChangeWorkspaceFolders now ws)
    have "liveFilesDistinct (updateCurrentRepo now ws None t)"
    proof (rule liveFilesDistinctI[OF assms])
      show "\<forall>a \<in> snd ` set (repoActivityMap (updateCurrentRepo now ws None t)). distinct (filesEdited a)"
        by (rule updateCurrentRepo_distinct[OF m])
      show "repositories (currentSession (updateCurrentRepo now ws None t)) = repositories (currentSession t)
         \<or> repositories (currentSession (updateCurrentRepo now ws None t)) = map snd (repoActivityMap (updateCurrentRepo now ws None t))
         \<or> repositories (currentSession (updateCurrentRepo now ws None t)) = []"
        by simp
    qed
    with DidChangeWorkspaceFolders assms show ?thesis by simp
  next
    case (DidChangeConfiguration affects cfg)
    have "liveFilesDistinct (t\<lparr> config := cfg \<rparr>)"
      using assms by (simp add: liveFilesDistinct_def)
    with DidChangeConfiguration assms show ?thesis by simp
  next
    case DebounceTimer
    with assms show ?thesis by (simp add: liveFilesDistinct_def)
  qed
qed

lemma run_liveFilesDistinct:
  "liveFilesDistinct t \<Longrightarrow> liveFilesDistinct (run t events)"
proof (induction events arbitrary: t)
  case Nil
  then show ?case by (simp add: run_def)
next
  case (Cons e es)
  from Cons.prems have "liveFilesDistinct (step t e)" by (rule step_liveFilesDistinct)
  then have "liveFilesDistinct (run (step t e) es)" by (rule Cons.IH)
  then show ?case by (simp add: run_def)
qed

lemma step_storageFilesDistinct:
  assumes "storageAll sessionFilesDistinct (storage t)" "liveFilesDistinct t"
  shows "storageAll sessionFilesDistinct (storage (step t e))"
proof -
  have m: "\<forall>a \<in> snd ` set (repoActivityMap t). distinct (filesEdited a)"
    using assms(2) by (simp add: liveFilesDistinct_def)
  have snap: "sessionFilesDistinct (s\<lparr> repositories := map snd mp, endTime := x \<rparr>)"
    if "\<forall>a \<in> snd ` set mp. distinct (filesEdited a)" for s :: TrackingSession and mp x
    using that by (simp add: sessionFilesDistinct_def)
  from step_storage[of t e] show ?thesis
  proof (elim disjE exE conjE)
    assume "storage (step t e) = storage t"
    with assms(1) show ?thesis by simp
  next
    fix now assume eq: "storage (step t e) = storage (stop now t)"
    have "storageAll sessionFilesDistinct (storage (stop now t))"
    proof (rule stop_all[OF assms(1)])
      fix t' :: TrackerService
      assume "repoActivityMap t' = repoActivityMap (stop now t)"
      then have "\<forall>a \<in> snd ` set (repoActivityMap t'). distinct (filesEdited a)"
        using stop_distinct[OF m, of now] by simp
      then show "sessionFilesDistinct ((currentSession (updateTimeCounters now t'))
          \<lparr> repositories := map snd (repoActivityMap t'), endTime := Some now \<rparr>)"
        by (rule snap)
    qed
    with eq show ?thesis by simp
  next
    fix now focused sid
    assume eq: "storage (step t e) = storage (heartbeat now focused sid t)"
    have "storageAll sessionFilesDistinct (storage (heartbeat now focused sid t))"
    proof (rule heartbeat_all[OF assms(1)])
      show "sessionFilesDistinct ((currentSession t)
          \<lparr> repositories := map snd (repoActivityMap t), endTime := Some now \<rparr>)"
        using m by (rule snap)
    next
      fix t' :: TrackerService
      assume "repoActivityMap t' = repoActivityMap t"
      then have "\<forall>a \<in> snd ` set (repoActivityMap t'). distinct (filesEdited a)"
        using m by simp
      then show "sessionFilesDistinct ((currentSession (updateTimeCounters now t'))
          \<lparr> repositories := map snd (repoActivityMap t'), endTime := Some now \<rparr>)"
        by (rule snap)
    qed
    with eq show ?thesis by simp
  next
    assume "storage (step t e) = debounceFires (storage t)"
    moreover have "storageAll sessionFilesDistinct (debounceFires (storage t))"
      using assms(1) by (rule debounceFires_all)
    ultimately show ?thesis by simp
  qed
qed

lemma run_storageFilesDistinct:
  assumes "storageAll sessionFilesDistinct (storage t)" "liveFilesDistinct t"
  shows "storageAll sessionFilesDistinct (storage (run t events))"
  using assms
proof (induction events arbitrary: t)
  case Nil
  then show ?case by (simp add: run_def)
next
  case (Cons e es)
  have "storageAll sessionFilesDistinct (storage (step t e))"
    using Cons.prems by (rule step_storageFilesDistinct)
  moreover have "liveFilesDistinct (step t e)"
    using Cons.prems(2) by (rule step_liveFilesDistinct)
  ultimately have "storageAll sessionFilesDistinct (storage (run (step t e) es))"
    by (rule Cons.IH)
  then show ?case by (simp add: run_def)
qed

text \<open>
  \<^bold>\<open>C10.\<close>  No file path occurs twice in a \<open>filesEdited\<close> list.  In the live
  session this holds after every sequence of events from the construction of the tracker
  on, for every activity of the map and of the current session; \<open>recordFileEdit\<close> keeps
  it, since it appends a path only when the list does not include it.  In a recomputed
  daily record it holds for every repository summary, given that it holds for the
  activities of the record's sessions (the first activity of a repository is copied as
  it is, later ones are merged path by path with a membership test); and the sessions
  that the tracker hands to a storage service are such, so a storage service that holds
  only such sessions when the tracker is constructed holds only such sessions ever after.
\<close>

theorem filesEdited_distinct:
  "liveFilesDistinct (run (newTrackerService st cfg now0 focused sid) events)
   \<and> (liveFilesDistinct t \<longrightarrow> liveFilesDistinct (recordFileEdit f t))
   \<and> (list_all sessionFilesDistinct (sessions d) \<longrightarrow>
        (\<forall>r \<in> set (dayRepositories (recalculateTotals d)). distinct (sumFilesEdited r)))
   \<and> (storageAll sessionFilesDistinct st \<longrightarrow>
        storageAll sessionFilesDistinct
          (storage (run (newTrackerService st cfg now0 focused sid) events)))"
proof (intro conjI impI)
  have init: "liveFilesDistinct (newTrackerService st cfg now0 focused sid)"
    by (simp add: liveFilesDistinct_def newTrackerService_def createNewSession_def)
  then show "liveFilesDistinct (run (newTrackerService st cfg now0 focused sid) events)"
    by (rule run_liveFilesDistinct)
  assume "storageAll sessionFilesDistinct st"
  then have "storageAll sessionFilesDistinct (storage (newTrackerService st cfg now0 focused sid))"
    by (simp add: newTrackerService_def)
  then show "storageAll sessionFilesDistinct
      (storage (run (newTrackerService st cfg now0 focused sid) events))"
    using init by (rule run_storageFilesDistinct)
next
  assume live: "liveFilesDistinct t"
  then have "\<forall>a \<in> snd ` set (repoActivityMap t). distinct (filesEdited a)"
    by (simp add: liveFilesDistinct_def)
  then have "\<forall>a \<in> snd ` set (repoActivityMap (recordFileEdit f t)). distinct (filesEdited a)"
    by (rule recordFileEdit_distinct)
  with live show "liveFilesDistinct (recordFileEdit f t)"
    by (rule liveFilesDistinctI) simp
next
  assume "list_all sessionFilesDistinct (sessions d)"
  then have ok: "\<forall>s \<in> set (sessions d). \<forall>r \<in> set (repositories s). distinct (filesEdited r)"
    by (simp add: list_all_iff sessionFilesDistinct_def)
  have "\<forall>r \<in> snd ` set ([] :: (string \<times> RepoSummary) list). distinct (sumFilesEdited r)"
    by simp
  then have "\<forall>r \<in> snd ` set (foldl (\<lambda>m s. foldl aggregateRepo m (repositories s)) [] (sessions d)).
           distinct (sumFilesEdited r)"
    using ok by (rule foldl_sessions_distinct)
  then show "\<forall>r \<in> set (dayRepositories (recalculateTotals d)). distinct (sumFilesEdited r)"
    by (simp add: recalculateTotals_eq)
qed

subsection \<open>Idle detection, start and stop\<close>

lemma heartbeat_state:
  assumes "isTracking (state t)" "dateString now = dateString (startTime (currentSession t))"
  shows "state (heartbeat now focused sid t) =
     state (if \<not> isIdle (state t) \<and> now - lastActivityTime (state t) > idleThresholdMinutes (config t) * 60 * 1000
            then enterIdleState t else t)"
  using assms by (simp add: heartbeat_def Let_def)

lemma heartbeat_rollover_state:
  assumes "isTracking (state t)" "dateString now \<noteq> dateString (startTime (currentSession t))"
  shows "state (heartbeat now focused sid t) = (initializeState now focused)\<lparr> isTracking := True \<rparr>"
  using assms by (simp add: heartbeat_def handleDayChange_def Let_def)

lemma lateTracker_state:
  "isTracking (state lateTracker)" "\<not> isIdle (state lateTracker)"
  "idleThresholdMinutes (config lateTracker) = 3"
  "lastActivityTime (state lateTracker) = 86280000"
  "startTime (currentSession lateTracker) = 86280000"
  by (simp_all add: lateTracker_def start_def newTrackerService_def
      initializeState_def createNewSession_def defaultConfig_def Let_def updateCurrentRepo_def
      resolveRepo_def appWorkspace_def)

text \<open>
  \<^bold>\<open>C6\<close> as stated fails on the heartbeat that finds the date changed.  The tracker
  started at 23:58:00 is tracking and not idle; at the heartbeat of 00:01:01 the gap is
  3:01, but \<open>heartbeat\<close> returns after \<open>handleDayChange\<close>, before the idle test, and
  the tracker is not idle.
\<close>

theorem rollover_heartbeat_counterexample:
  "isTracking (state lateTracker)
   \<and> \<not> isIdle (state lateTracker)
   \<and> idleThresholdMinutes (config lateTracker) = 3
   \<and> 86461000 - lastActivityTime (state lateTracker) = 181000
   \<and> \<not> isIdle (state (heartbeat 86461000 True ''session_2'' lateTracker))"
proof -
  have "dateString 86461000 \<noteq> dateString (startTime (currentSession lateTracker))"
    by (simp add: lateTracker_state dateString_def msPerDay_def)
  then have "state (heartbeat 86461000 True ''session_2'' lateTracker)
      = (initializeState 86461000 True)\<lparr> isTracking := True \<rparr>"
    using lateTracker_state(1) by (intro heartbeat_rollover_state)
  then show ?thesis
    by (simp add: lateTracker_state initializeState_def)
qed

text \<open>
  \<^bold>\<open>C6\<close> (as amended).  Take a heartbeat with \<open>idleThresholdMinutes = 3\<close> that finds
  the tracker not idle.  If tracking is on and the start date of the session is the date
  of \<open>now\<close>, the tracker is idle afterwards exactly when \<open>now - lastActivityTime\<close> is
  strictly greater than 180000 ms: a gap of 3:00 leaves it active, a gap of 3:01 makes
  it idle, and on the transition \<open>idleStartTime\<close> becomes the old \<open>lastActivityTime\<close>.
  If tracking is on and the date has changed, the heartbeat does the day rollover
  instead: the state is the initial state with \<open>isTracking\<close> set, not idle whatever the
  gap.  If tracking is off, the heartbeat changes nothing.
\<close>

theorem idle_threshold_boundary:
  "idleThresholdMinutes (config t) = 3 \<and> \<not> isIdle (state t) \<longrightarrow>
     (isTracking (state t) \<and> dateString now = dateString (startTime (currentSession t)) \<longrightarrow>
        (isIdle (state (heartbeat now focused sid t))
           \<longleftrightarrow> now - lastActivityTime (state t) > 180000)
        \<and> (now - lastActivityTime (state t) = 180000
             \<longrightarrow> \<not> isIdle (state (heartbeat now focused sid t)))
        \<and> (now - lastActivityTime (state t) = 181000
             \<longrightarrow> isIdle (state (heartbeat now focused sid t)))
        \<and> (isIdle (state (heartbeat now focused sid t)) \<longrightarrow>
              idleStartTime (state (heartbeat now focused sid t))
                = Some (lastActivityTime (state t))))
     \<and> (isTracking (state t) \<and> dateString now \<noteq> dateString (startTime (currentSession t)) \<longrightarrow>
        state (heartbeat now focused sid t) = (initializeState now focused)\<lparr> isTracking := True \<rparr>
        \<and> \<not> isIdle (state (heartbeat now focused sid t)))
     \<and> (\<not> isTracking (state t) \<longrightarrow> heartbeat now focused sid t = t)"
proof (intro impI conjI; (elim conjE)?)
  assume a: "idleThresholdMinutes (config t) = 3" "\<not> isIdle (state t)" "isTracking (state t)"
    "dateString now = dateString (startTime (currentSession t))"
  have s: "state (heartbeat now focused sid t) =
     state (if now - lastActivityTime (state t) > 180000 then enterIdleState t else t)"
    using a by (simp add: heartbeat_state)
  show "isIdle (state (heartbeat now focused sid t)) \<longleftrightarrow> now - lastActivityTime (state t) > 180000"
    using a(2) by (simp add: s enterIdleState_def)
  show "\<not> isIdle (state (heartbeat now focused sid t))"
    if "now - lastActivityTime (state t) = 180000"
    using a(2) that by (simp add: s)
  show "isIdle (state (heartbeat now focused sid t))"
    if "now - lastActivityTime (state t) = 181000"
    using a(2) that by (simp add: s enterIdleState_def)
  show "idleStartTime (state (heartbeat now focused sid t)) = Some (lastActivityTime (state t))"
    if "isIdle (state (heartbeat now focused sid t))"
    using a(2) that by (simp add: s enterIdleState_def split: if_splits)
next
  assume a: "isTracking (state t)" "dateString now \<noteq> dateString (startTime (currentSession t))"
  then show r: "state (heartbeat now focused sid t)
      = (initializeState now focused)\<lparr> isTracking := True \<rparr>"
    by (rule heartbeat_rollover_state)
  show "\<not> isIdle (state (heartbeat now focused sid t))"
    by (simp add: r initializeState_def)
next
  assume "\<not> isTracking (state t)"
  then show "heartbeat now focused sid t = t"
    by (simp add: heartbeat_def)
qed

theorem idle_threshold_boundary_witness:
  "idleThresholdMinutes (config startedTracker) = 3
   \<and> \<not> isIdle (state startedTracker)
   \<and> isTracking (state startedTracker)
   \<and> dateString 180000 = dateString (startTime (currentSession startedTracker))
   \<and> dateString 181000 = dateString (startTime (currentSession startedTracker))
   \<and> lastActivityTime (state startedTracker) = 0
   \<and> \<not> isIdle (state (heartbeat 180000 True ''session_2'' startedTracker))
   \<and> isIdle (state (heartbeat 181000 True ''session_2'' startedTracker))
   \<and> idleStartTime (state (heartbeat 181000 True ''session_2'' startedTracker)) = Some 0
   \<and> idleThresholdMinutes (config lateTracker) = 3
   \<and> \<not> isIdle (state lateTracker)
   \<and> isTracking (state lateTracker)
   \<and> dateString 86461000 \<noteq> dateString (startTime (currentSession lateTracker))
   \<and> \<not> isIdle (state (heartbeat 86461000 True ''session_2'' lateTracker))
   \<and> idleThresholdMinutes (config freshTracker) = 3
   \<and> \<not> isIdle (state freshTracker)
   \<and> \<not> isTracking (state freshTracker)
   \<and> heartbeat 181000 True ''session_2'' freshTracker = freshTracker"
proof -
  have s: "isTracking (state startedTracker)" "\<not> isIdle (state startedTracker)"
    "idleThresholdMinutes (config startedTracker) = 3"
    "lastActivityTime (state startedTracker) = 0"
    "startTime (currentSession startedTracker) = 0"
    by (simp_all add: startedTracker_def freshTracker_def start_def newTrackerService_def
        initializeState_def createNewSession_def defaultConfig_def Let_def updateCurrentRepo_def
        resolveRepo_def appWorkspace_def)
  have f: "\<not> isTracking (state freshTracker)" "\<not> isIdle (state freshTracker)"
    "idleThresholdMinutes (config freshTracker) = 3"
    by (simp_all add: freshTracker_def newTrackerService_def initializeState_def defaultConfig_def)
  have d: "dateString 180000 = dateString 0" "dateString 181000 = dateString 0"
    "dateString 86461000 \<noteq> dateString 86280000"
    by (simp_all add: dateString_def msPerDay_def)
  from idle_threshold_boundary [of startedTracker 180000 True "''session_2''"]
       idle_threshold_boundary [of startedTracker 181000 True "''session_2''"]
       idle_threshold_boundary [of lateTracker 86461000 True "''session_2''"]
       idle_threshold_boundary [of freshTracker 181000 True "''session_2''"]
       s d f lateTracker_state
  show ?thesis by (simp add: initializeState_def)
qed

text \<open>
  \<^bold>\<open>C9.\<close>  \<open>start\<close> while tracking and \<open>stop\<close> while not tracking return at
  once: the whole tracker (state, session, counters, listeners, heartbeat timer, storage)
  is unchanged.  Hence a second \<open>start\<close> after a \<open>start\<close>, and a second \<open>stop\<close> after a
  \<open>stop\<close>, change nothing.
\<close>

theorem start_stop_idempotent:
  "(isTracking (state t) \<longrightarrow> start now ws sid t = t)
   \<and> (\<not> isTracking (state t) \<longrightarrow> stop now t = t)
   \<and> start now' ws' sid' (start now ws sid t) = start now ws sid t
   \<and> stop now' (stop now t) = stop now t"
proof -
  have "isTracking (state (start now ws sid t))"
    by (simp add: start_def Let_def)
  moreover have "\<not> isTracking (state (stop now t))"
    by (simp add: stop_def Let_def)
  ultimately show ?thesis
    by (simp add: start_def[of now' ws' sid'] stop_def[of now'])
       (simp add: start_def[of now ws sid t] stop_def[of now t])
qed

theorem start_stop_idempotent_witness:
  "isTracking (state startedTracker)
   \<and> start 5000 appWorkspace ''session_2'' startedTracker = startedTracker
   \<and> \<not> isTracking (state freshTracker)
   \<and> stop 5000 freshTracker = freshTracker"
proof -
  have "isTracking (state startedTracker)"
    by (simp add: startedTracker_def freshTracker_def start_def newTrackerService_def
        initializeState_def Let_def)
  moreover have "\<not> isTracking (state freshTracker)"
    by (simp add: freshTracker_def newTrackerService_def initializeState_def)
  ultimately show ?thesis
    using start_stop_idempotent [of startedTracker 5000 appWorkspace "''session_2''"]
      start_stop_idempotent [of freshTracker 5000]
    by simp
qed


subsection \<open>Billing of elapsed time\<close>

lemma billActivity_timeSpent [simp]:
  "timeSpent (billActivity repo ms a) = timeSpent a + ms"
  by (simp add: billActivity_def split: option.splits)

lemma map_of_addLanguageTime:
  "map_of (addLanguageTime acc (l, ms)) l' =
     (if l' = l then Some ((case map_of acc l of Some v \<Rightarrow> v | None \<Rightarrow> 0) + ms) else map_of acc l')"
  by (simp add: addLanguageTime_def update_conv')

lemma billActivity_languages:
  "(case map_of (languages (billActivity repo ms a)) l of Some v \<Rightarrow> v | None \<Rightarrow> 0) =
     (case map_of (languages a) l of Some v \<Rightarrow> v | None \<Rightarrow> 0)
       + (if language repo = Some l \<and> l \<noteq> [] then ms else 0)"
  by (auto simp: billActivity_def map_of_addLanguageTime split: option.splits)

lemma timeSpentOf_Nil [simp]: "timeSpentOf [] k = 0"
  by (simp add: timeSpentOf_def)

lemma languageTimeOf_Nil [simp]: "languageTimeOf [] k l = 0"
  by (simp add: languageTimeOf_def)

lemma timeSpentOf_addTimeToRepo:
  "timeSpentOf (addTimeToRepo repo ms m) k =
     (if k = repoKey repo then timeSpentOf m k + ms else timeSpentOf m k)"
  by (simp add: timeSpentOf_def addTimeToRepo_def update_conv' newActivity_def
      split: option.splits)

lemma languageTimeOf_addTimeToRepo:
  "languageTimeOf (addTimeToRepo repo ms m) k l =
     (if k = repoKey repo \<and> language repo = Some l \<and> l \<noteq> []
      then languageTimeOf m k l + ms else languageTimeOf m k l)"
proof (cases "map_of m (repoKey repo)")
  case None
  then show ?thesis
    using billActivity_languages[of repo ms "newActivity repo" l]
    by (simp add: languageTimeOf_def addTimeToRepo_def update_conv' newActivity_def)
next
  case (Some a)
  then show ?thesis
    using billActivity_languages[of repo ms a l]
    by (simp add: languageTimeOf_def addTimeToRepo_def update_conv')
qed

lemma recordActivity_idle:
  assumes "isIdle (state t)"
  shows "state (recordActivity now t) =
           (state t)\<lparr> sessionIdleTime := sessionIdleTime (state t)
                          + (case idleStartTime (state t) of Some i \<Rightarrow> now - i | None \<Rightarrow> 0),
                       isIdle := False, idleStartTime := None, lastActivityTime := now \<rparr>"
    and "repoActivityMap (recordActivity now t) =
           (case currentRepo (state t) of
              Some repo \<Rightarrow> addTimeToRepo repo (now - lastActivityTime (state t)) (repoActivityMap t)
            | None \<Rightarrow> repoActivityMap t)"
  using assms
  by (simp_all add: recordActivity_def exitIdleState_def Let_def split: option.splits)

lemma recordActivity_active:
  assumes "\<not> isIdle (state t)"
  shows "state (recordActivity now t) = (state t)\<lparr> lastActivityTime := now \<rparr>"
    and "repoActivityMap (recordActivity now t) =
           (case currentRepo (state t) of
              Some repo \<Rightarrow> addTimeToRepo repo (now - lastActivityTime (state t)) (repoActivityMap t)
            | None \<Rightarrow> repoActivityMap t)"
  using assms
  by (simp_all add: recordActivity_def Let_def split: option.splits)

lemma startedTracker_state:
  "state startedTracker =
     \<lparr> isTracking = True, sessionStart = 0, lastActivityTime = 0,
       currentRepo = Some appRepo,
       isWindowFocused = True, isIdle = False, sessionActiveTime = 0, sessionIdleTime = 0,
       idleStartTime = None \<rparr>"
  "repoActivityMap startedTracker = []"
  "config startedTracker = defaultConfig"
  "startTime (currentSession startedTracker) = 0"
  by (simp_all add: startedTracker_def freshTracker_def start_def newTrackerService_def
      initializeState_def createNewSession_def Let_def updateCurrentRepo_def
      resolveRepo_def appWorkspace_def appInfo_def appRepo_def)

lemma heartbeat_repoActivityMap:
  assumes "isTracking (state t)" "dateString now = dateString (startTime (currentSession t))"
  shows "repoActivityMap (heartbeat now focused sid t) = repoActivityMap t"
  using assms by (simp add: heartbeat_def Let_def)

lemma idleTracker_state:
  "state idleTracker = (state startedTracker)\<lparr> isIdle := True, idleStartTime := Some 0 \<rparr>"
  "repoActivityMap idleTracker = []"
proof -
  have d: "dateString 240000 = dateString (startTime (currentSession startedTracker))"
    by (simp add: startedTracker_state dateString_def msPerDay_def)
  show "state idleTracker = (state startedTracker)\<lparr> isIdle := True, idleStartTime := Some 0 \<rparr>"
    unfolding idleTracker_def
    by (simp add: heartbeat_state d startedTracker_state defaultConfig_def enterIdleState_def)
  show "repoActivityMap idleTracker = []"
    unfolding idleTracker_def
    by (simp add: heartbeat_repoActivityMap d startedTracker_state)
qed

text \<open>
  \<^bold>\<open>C1\<close> as stated fails.  After a start at 0 and a heartbeat at 4:00 that finds the
  tracker idle since 0, an activity at 10:00 adds the ten minutes to the session's idle
  time and the same ten minutes to the context's \<open>timeSpent\<close> and language time.
\<close>

theorem idle_gap_counterexample:
  "isIdle (state idleTracker)
   \<and> lastActivityTime (state idleTracker) = 0
   \<and> idleStartTime (state idleTracker) = Some 0
   \<and> sessionIdleTime (state idleTracker) = 0
   \<and> timeSpentOf (repoActivityMap idleTracker) ''/w/app:main'' = 0
   \<and> sessionIdleTime (state (recordActivity 600000 idleTracker)) = 600000
   \<and> timeSpentOf (repoActivityMap (recordActivity 600000 idleTracker)) ''/w/app:main'' = 600000
   \<and> languageTimeOf (repoActivityMap (recordActivity 600000 idleTracker)) ''/w/app:main''
        ''typescript'' = 600000"
  by (simp add: recordActivity_idle idleTracker_state startedTracker_state
      timeSpentOf_addTimeToRepo languageTimeOf_addTimeToRepo repoKey_def appRepo_def)

text \<open>
  \<^bold>\<open>C1\<close> (as amended).  When \<open>recordActivity\<close> runs while the tracker is idle and a
  context is current, the tracker leaves the idle state and two amounts are added:
  \<open>now - idleStartTime\<close> to \<open>sessionIdleTime\<close> (nothing when \<open>idleStartTime\<close> is
  unset), and \<open>now - lastActivityTime\<close> to the current context's \<open>timeSpent\<close> and,
  when the context has a non-empty language, to the time of that language; no other
  context's \<open>timeSpent\<close> changes.  When \<open>idleStartTime\<close> is the \<open>lastActivityTime\<close>,
  as \<open>enterIdleState\<close> leaves it, the two amounts are the same gap: the idle interval
  is counted as idle time of the session and billed in full to the context.
\<close>

theorem idle_gap_billed_to_context:
  assumes "isIdle (state t)" and "currentRepo (state t) = Some repo"
  shows "\<not> isIdle (state (recordActivity now t))
    \<and> sessionIdleTime (state (recordActivity now t)) =
        sessionIdleTime (state t) + (case idleStartTime (state t) of Some i \<Rightarrow> now - i | None \<Rightarrow> 0)
    \<and> timeSpentOf (repoActivityMap (recordActivity now t)) (repoKey repo) =
        timeSpentOf (repoActivityMap t) (repoKey repo) + (now - lastActivityTime (state t))
    \<and> (language repo = Some l \<and> l \<noteq> [] \<longrightarrow>
         languageTimeOf (repoActivityMap (recordActivity now t)) (repoKey repo) l =
         languageTimeOf (repoActivityMap t) (repoKey repo) l + (now - lastActivityTime (state t)))
    \<and> (k \<noteq> repoKey repo \<longrightarrow>
         timeSpentOf (repoActivityMap (recordActivity now t)) k = timeSpentOf (repoActivityMap t) k)
    \<and> (idleStartTime (state t) = Some (lastActivityTime (state t)) \<longrightarrow>
         sessionIdleTime (state (recordActivity now t)) - sessionIdleTime (state t)
           = now - lastActivityTime (state t)
         \<and> timeSpentOf (repoActivityMap (recordActivity now t)) (repoKey repo)
             - timeSpentOf (repoActivityMap t) (repoKey repo)
           = now - lastActivityTime (state t))
    \<and> (\<not> isIdle (state u) \<longrightarrow>
         idleStartTime (state (enterIdleState u)) = Some (lastActivityTime (state u)))"
  using assms
  by (simp add: recordActivity_idle timeSpentOf_addTimeToRepo languageTimeOf_addTimeToRepo
      enterIdleState_def)

lemma blurredTracker_state:
  "state blurredTracker =
     (state startedTracker)\<lparr> isIdle := True, idleStartTime := Some 300000,
                               isWindowFocused := False \<rparr>"
  "repoActivityMap blurredTracker = []"
  by (simp_all add: blurredTracker_def handleWindowStateChange_def Let_def idleTracker_state)

theorem idle_gap_billed_to_context_witness:
  "isIdle (state idleTracker)
   \<and> currentRepo (state idleTracker) = Some appRepo
   \<and> idleStartTime (state idleTracker) = Some (lastActivityTime (state idleTracker))
   \<and> \<not> isIdle (state (recordActivity 600000 idleTracker))
   \<and> sessionIdleTime (state (recordActivity 600000 idleTracker))
       = sessionIdleTime (state idleTracker) + 600000
   \<and> timeSpentOf (repoActivityMap (recordActivity 600000 idleTracker)) ''/w/app:main''
       = timeSpentOf (repoActivityMap idleTracker) ''/w/app:main'' + 600000
   \<and> isIdle (state blurredTracker)
   \<and> currentRepo (state blurredTracker) = Some appRepo
   \<and> idleStartTime (state blurredTracker) = Some 300000
   \<and> lastActivityTime (state blurredTracker) = 0
   \<and> sessionIdleTime (state (recordActivity 600000 blurredTracker))
       = sessionIdleTime (state blurredTracker) + 300000
   \<and> timeSpentOf (repoActivityMap (recordActivity 600000 blurredTracker)) ''/w/app:main''
       = timeSpentOf (repoActivityMap blurredTracker) ''/w/app:main'' + 600000"
  using idle_gap_billed_to_context [of idleTracker appRepo 600000 "''typescript''" "''/w/lib:main''"
      startedTracker]
    idle_gap_billed_to_context [of blurredTracker appRepo 600000 "''typescript''" "''/w/lib:main''"
      startedTracker]
  by (simp add: idleTracker_state blurredTracker_state startedTracker_state repoKey_def appRepo_def)

lemma activeTracker_state:
  "state activeTracker = (state startedTracker)\<lparr> lastActivityTime := 10000 \<rparr>"
  "timeSpentOf (repoActivityMap activeTracker) k = (if k = ''/w/app:main'' then 10000 else 0)"
  "languageTimeOf (repoActivityMap activeTracker) k l =
     (if k = ''/w/app:main'' \<and> l = ''typescript'' then 10000 else 0)"
  unfolding activeTracker_def
  by (auto simp: recordActivity_active startedTracker_state timeSpentOf_addTimeToRepo
      languageTimeOf_addTimeToRepo repoKey_def appRepo_def)

text \<open>
  \<^bold>\<open>C7\<close> as stated fails: nothing clamps a negative interval.  With the last activity
  at 10 s and the clock then reading 4 s, \<open>recordActivity\<close> adds \<open>-6000\<close> ms, and the
  context's \<open>timeSpent\<close> and language time drop from 10000 to 4000.
\<close>

theorem backward_clock_counterexample:
  "lastActivityTime (state activeTracker) = 10000
   \<and> timeSpentOf (repoActivityMap activeTracker) ''/w/app:main'' = 10000
   \<and> languageTimeOf (repoActivityMap activeTracker) ''/w/app:main'' ''typescript'' = 10000
   \<and> timeSpentOf (repoActivityMap (recordActivity 4000 activeTracker)) ''/w/app:main'' = 4000
   \<and> languageTimeOf (repoActivityMap (recordActivity 4000 activeTracker)) ''/w/app:main''
        ''typescript'' = 4000"
  by (simp add: recordActivity_active activeTracker_state startedTracker_state
      timeSpentOf_addTimeToRepo languageTimeOf_addTimeToRepo repoKey_def appRepo_def)

lemma exitIdleState_sessionIdleTime:
  "sessionIdleTime (state (exitIdleState now t)) =
     sessionIdleTime (state t)
       + (if isIdle (state t) then (case idleStartTime (state t) of Some i \<Rightarrow> now - i | None \<Rightarrow> 0)
          else 0)"
  by (simp add: exitIdleState_def split: option.splits)

lemma recordActivity_sessionIdleTime:
  "sessionIdleTime (state (recordActivity now t)) =
     sessionIdleTime (state t)
       + (if isIdle (state t) then (case idleStartTime (state t) of Some i \<Rightarrow> now - i | None \<Rightarrow> 0)
          else 0)"
  by (cases "isIdle (state t)") (simp_all add: recordActivity_idle recordActivity_active)

lemma recordActivity_repoActivityMap:
  "repoActivityMap (recordActivity now t) =
     (case currentRepo (state t) of
        Some repo \<Rightarrow> addTimeToRepo repo (now - lastActivityTime (state t)) (repoActivityMap t)
      | None \<Rightarrow> repoActivityMap t)"
  by (cases "isIdle (state t)") (simp_all add: recordActivity_idle recordActivity_active)

text \<open>
  \<^bold>\<open>C7\<close> (as amended).  \<open>recordActivity\<close>, \<open>exitIdleState\<close> and
  \<open>finalizeRepoTime\<close> add the interval as computed, without clamping:
  \<open>now - lastActivityTime\<close>, \<open>now - idleStartTime\<close> and \<open>now - startTime\<close>.  Every
  context's \<open>timeSpent\<close>, every language time and \<open>sessionIdleTime\<close> are non-decreasing
  across the event whenever the clock reading is not earlier than the instant it is
  subtracted from; the session's \<open>activeTime\<close> is not changed by these events.
\<close>

theorem accumulators_monotone:
  "(lastActivityTime (state t) \<le> now \<and> (\<forall>i. idleStartTime (state t) = Some i \<longrightarrow> i \<le> now) \<longrightarrow>
      timeSpentOf (repoActivityMap t) k \<le> timeSpentOf (repoActivityMap (recordActivity now t)) k
      \<and> languageTimeOf (repoActivityMap t) k l
          \<le> languageTimeOf (repoActivityMap (recordActivity now t)) k l
      \<and> sessionIdleTime (state t) \<le> sessionIdleTime (state (recordActivity now t)))
   \<and> ((\<forall>i. idleStartTime (state t) = Some i \<longrightarrow> i \<le> now) \<longrightarrow>
      sessionIdleTime (state t) \<le> sessionIdleTime (state (exitIdleState now t)))
   \<and> (repoStartTime repo \<le> now \<longrightarrow>
      timeSpentOf (repoActivityMap t) k \<le> timeSpentOf (repoActivityMap (finalizeRepoTime now repo t)) k
      \<and> languageTimeOf (repoActivityMap t) k l
          \<le> languageTimeOf (repoActivityMap (finalizeRepoTime now repo t)) k l)
   \<and> (currentRepo (state t) = Some repo \<longrightarrow>
      timeSpentOf (repoActivityMap (recordActivity now t)) (repoKey repo)
        = timeSpentOf (repoActivityMap t) (repoKey repo) + (now - lastActivityTime (state t)))
   \<and> timeSpentOf (repoActivityMap (finalizeRepoTime now repo t)) (repoKey repo)
        = timeSpentOf (repoActivityMap t) (repoKey repo) + (now - repoStartTime repo)
   \<and> (isIdle (state t) \<and> idleStartTime (state t) = Some idleStart \<longrightarrow>
      sessionIdleTime (state (exitIdleState now t)) = sessionIdleTime (state t) + (now - idleStart))
   \<and> activeTime (currentSession (recordActivity now t)) = activeTime (currentSession t)
   \<and> activeTime (currentSession (exitIdleState now t)) = activeTime (currentSession t)
   \<and> activeTime (currentSession (finalizeRepoTime now repo t)) = activeTime (currentSession t)"
proof (intro conjI impI)
  assume a: "lastActivityTime (state t) \<le> now \<and> (\<forall>i. idleStartTime (state t) = Some i \<longrightarrow> i \<le> now)"
  show "timeSpentOf (repoActivityMap t) k \<le> timeSpentOf (repoActivityMap (recordActivity now t)) k"
    using a by (simp add: recordActivity_repoActivityMap timeSpentOf_addTimeToRepo split: option.splits)
  show "languageTimeOf (repoActivityMap t) k l
          \<le> languageTimeOf (repoActivityMap (recordActivity now t)) k l"
    using a by (simp add: recordActivity_repoActivityMap languageTimeOf_addTimeToRepo split: option.splits)
  show "sessionIdleTime (state t) \<le> sessionIdleTime (state (recordActivity now t))"
    using a by (simp add: recordActivity_sessionIdleTime split: option.splits)
next
  assume "\<forall>i. idleStartTime (state t) = Some i \<longrightarrow> i \<le> now"
  then show "sessionIdleTime (state t) \<le> sessionIdleTime (state (exitIdleState now t))"
    by (simp add: exitIdleState_sessionIdleTime split: option.splits)
next
  assume a: "repoStartTime repo \<le> now"
  show "timeSpentOf (repoActivityMap t) k \<le> timeSpentOf (repoActivityMap (finalizeRepoTime now repo t)) k"
    using a by (simp add: finalizeRepoTime_def timeSpentOf_addTimeToRepo)
  show "languageTimeOf (repoActivityMap t) k l
          \<le> languageTimeOf (repoActivityMap (finalizeRepoTime now repo t)) k l"
    using a by (simp add: finalizeRepoTime_def languageTimeOf_addTimeToRepo)
next
  assume "currentRepo (state t) = Some repo"
  then show "timeSpentOf (repoActivityMap (recordActivity now t)) (repoKey repo)
        = timeSpentOf (repoActivityMap t) (repoKey repo) + (now - lastActivityTime (state t))"
    by (simp add: recordActivity_repoActivityMap timeSpentOf_addTimeToRepo)
next
  show "timeSpentOf (repoActivityMap (finalizeRepoTime now repo t)) (repoKey repo)
        = timeSpentOf (repoActivityMap t) (repoKey repo) + (now - repoStartTime repo)"
    by (simp add: finalizeRepoTime_def timeSpentOf_addTimeToRepo)
next
  assume "isIdle (state t) \<and> idleStartTime (state t) = Some idleStart"
  then show "sessionIdleTime (state (exitIdleState now t)) = sessionIdleTime (state t) + (now - idleStart)"
    by (simp add: exitIdleState_sessionIdleTime)
qed simp_all

theorem accumulators_monotone_witness:
  "lastActivityTime (state activeTracker) \<le> 30000
   \<and> idleStartTime (state activeTracker) = None
   \<and> repoStartTime appRepo \<le> 30000
   \<and> currentRepo (state activeTracker) = Some appRepo
   \<and> isIdle (state idleTracker) \<and> idleStartTime (state idleTracker) = Some 0
   \<and> timeSpentOf (repoActivityMap activeTracker) ''/w/app:main''
       \<le> timeSpentOf (repoActivityMap (recordActivity 30000 activeTracker)) ''/w/app:main''
   \<and> timeSpentOf (repoActivityMap (recordActivity 30000 activeTracker)) ''/w/app:main'' = 30000
   \<and> timeSpentOf (repoActivityMap (finalizeRepoTime 30000 appRepo activeTracker)) ''/w/app:main''
       = 40000
   \<and> sessionIdleTime (state (exitIdleState 30000 idleTracker)) = 30000"
  using accumulators_monotone [of activeTracker 30000 "''/w/app:main''" "''typescript''" appRepo 0]
    accumulators_monotone [of idleTracker 30000 "''/w/app:main''" "''typescript''" appRepo 0]
  by (simp add: activeTracker_state startedTracker_state idleTracker_state repoKey_def appRepo_def)


lemma recordActivity_state:
  "state (recordActivity now t) =
     (if isIdle (state t) then
        (state t)\<lparr> sessionIdleTime := sessionIdleTime (state t)
                          + (case idleStartTime (state t) of Some i \<Rightarrow> now - i | None \<Rightarrow> 0),
                    isIdle := False, idleStartTime := None, lastActivityTime := now \<rparr>
      else (state t)\<lparr> lastActivityTime := now \<rparr>)"
  by (simp add: recordActivity_idle recordActivity_active)

lemma switchedTracker_state:
  "currentRepo (state switchedTracker) =
     Some \<lparr> path = ''/w/lib'', name = ''lib'', branch = ''main'', curRemoteUrl = None,
            activeFile = Some ''/w/lib/b.ts'', language = Some ''typescript'',
            repoStartTime = 20000 \<rparr>"
  "lastActivityTime (state switchedTracker) = 20000"
  "isIdle (state switchedTracker) = False"
  "repoActivityMap switchedTracker =
     addTimeToRepo appRepo 20000 (addTimeToRepo appRepo 10000 (repoActivityMap activeTracker))"
  unfolding switchedTracker_def
  by (simp_all add: handleEditorChange_def updateCurrentRepo_def resolveRepo_def Let_def
      libWorkspace_def appWorkspace_def libInfo_def recordActivity_state
      recordActivity_repoActivityMap activeTracker_state startedTracker_state
      finalizeRepoTime_def appRepo_def)

text \<open>
  \<^bold>\<open>C3\<close> fails on the code.  Start at 0 in repository \<open>app\<close>, an edit at 10 s, a
  switch of the editor to repository \<open>lib\<close> at 20 s, an edit at 30 s.  The edit and the
  switch have already billed the 20 s to \<open>app\<close> through \<open>recordActivity\<close> when
  \<open>finalizeRepoTime\<close> bills \<open>now - startTime\<close>, the same 20 s, to \<open>app\<close> again:
  \<open>app\<close> holds 40 s and \<open>lib\<close> 10 s, 50 s billed for 30 s elapsed.
\<close>

theorem context_switch_double_billing:
  "lastActivityTime (state activeTracker) = 10000
   \<and> timeSpentOf (repoActivityMap activeTracker) ''/w/app:main'' = 10000
   \<and> timeSpentOf (repoActivityMap switchedTracker) ''/w/app:main'' = 40000
   \<and> map_option path (currentRepo (state switchedTracker)) = Some ''/w/lib''
   \<and> timeSpentOf (repoActivityMap (recordActivity 30000 switchedTracker)) ''/w/app:main'' = 40000
   \<and> timeSpentOf (repoActivityMap (recordActivity 30000 switchedTracker)) ''/w/lib:main'' = 10000"
  by (simp add: switchedTracker_state recordActivity_repoActivityMap timeSpentOf_addTimeToRepo
      activeTracker_state startedTracker_state repoKey_def appRepo_def)


subsection \<open>Day rollover\<close>

lemma nightTracker_eq:
  "state nightTracker =
     \<lparr> isTracking = True, sessionStart = 86340000, lastActivityTime = 86340000,
       currentRepo = Some (appRepo\<lparr> repoStartTime := 86340000 \<rparr>),
       isWindowFocused = True, isIdle = False, sessionActiveTime = 0, sessionIdleTime = 0,
       idleStartTime = None \<rparr>"
  "repoActivityMap nightTracker = []"
  "config nightTracker = defaultConfig"
  "currentSession nightTracker = createNewSession 86340000 ''session_1''"
  "storage nightTracker = emptyStorage"
  "heartbeatInterval nightTracker"
  by (simp_all add: nightTracker_def start_def newTrackerService_def
      initializeState_def Let_def updateCurrentRepo_def
      resolveRepo_def appWorkspace_def appInfo_def appRepo_def)

lemma dateString_night:
  "dateString 86340000 = 0" "dateString 86370000 = 0" "dateString 86400000 = 1"
  by (simp_all add: dateString_def msPerDay_def)

lemma beforeMidnight_eq:
  "state beforeMidnight = state nightTracker"
  "repoActivityMap beforeMidnight = []"
  "currentSession beforeMidnight = eveningSession"
  "storage beforeMidnight =
     \<lparr> currentDayData = Some (dayRecord 0 [eveningSession] 30000), saveDebounceTimer = None,
       files = (\<lambda>d. None)(0 \<mapsto> Json (dayRecord 0 [eveningSession] 30000)),
       writeFails = False \<rparr>"
  "heartbeatInterval beforeMidnight"
  unfolding beforeMidnight_def run_def
  by (simp_all add: nightTracker_eq heartbeat_def dateString_night createNewSession_def Let_def
      defaultConfig_def updateTimeCounters_def saveCurrentSession_def updateSession_def
      getTodayData_def emptyStorage_def loadDailyData_def createEmptyDailyData_def
      upsertSession_def recalculateTotals_eq saveTodayData_def debounceFires_def
      saveDailyData_def eveningSession_def dayRecord_def sessionLanguages_def mergeLanguages_def)

text \<open>
  \<^bold>\<open>C2\<close> fails on the code.  The session starts at 23:59:00 of day \<open>0\<close>; the
  heartbeat of 23:59:30 stores it in the record of day \<open>0\<close>, which the debounce timer
  writes.  At the heartbeat of 00:00:00 \<open>handleDayChange\<close> saves the session through
  \<open>updateSession\<close>, whose \<open>getTodayData\<close> now answers the record of day \<open>1\<close>: the
  closed session is appended to today's record and written to today's file, with the
  counters of 23:59:30 (\<open>updateTimeCounters\<close> is not called), while the file of day \<open>0\<close>
  keeps the session as it was at 23:59:30.  The tracking state is reset with
  \<open>isTracking\<close> set, and the fresh session is in no record yet.
\<close>

theorem rollover_stores_in_todays_record:
  "dateString (startTime (currentSession beforeMidnight)) = 0
   \<and> files (storage beforeMidnight) 0 = Some (Json (dayRecord 0 [eveningSession] 30000))
   \<and> files (storage beforeMidnight) 1 = None
   \<and> files (storage afterMidnight) 0 = Some (Json (dayRecord 0 [eveningSession] 30000))
   \<and> files (storage afterMidnight) 1 = Some (Json (dayRecord 1 [closedSession] 30000))
   \<and> currentDayData (storage afterMidnight) = Some (dayRecord 1 [closedSession] 30000)
   \<and> state afterMidnight = (initializeState 86400000 True)\<lparr> isTracking := True \<rparr>
   \<and> currentSession afterMidnight = createNewSession 86400000 ''session_3''"
  unfolding afterMidnight_def
  by (simp add: beforeMidnight_eq heartbeat_def nightTracker_eq dateString_night handleDayChange_def Let_def
      saveCurrentSession_def updateSession_def getTodayData_def loadDailyData_def
      createEmptyDailyData_def upsertSession_def recalculateTotals_eq saveTodayData_def
      forceSave_def saveDailyData_def eveningSession_def closedSession_def dayRecord_def
      sessionLanguages_def mergeLanguages_def)

subsection \<open>File lists on a run of the tracker\<close>

lemma startedTracker_rest:
  "disposables startedTracker = 6" "heartbeatInterval startedTracker"
  "storage startedTracker = emptyStorage"
  "currentSession startedTracker = createNewSession 0 ''session_1''"
  by (simp_all add: startedTracker_def freshTracker_def start_def newTrackerService_def
      initializeState_def Let_def updateCurrentRepo_def resolveRepo_def appWorkspace_def)

lemma savedTracker_eq:
  "savedTracker = recordFileEdit ''/w/app/a.ts'' activeTracker"
  "state savedTracker = (state startedTracker)\<lparr> lastActivityTime := 10000 \<rparr>"
  "repoActivityMap savedTracker =
     [(''/w/app:main'',
       \<lparr> repoPath = ''/w/app'', repoName = ''app'', branchName = ''main'', remoteUrl = None,
         timeSpent = 10000, filesEdited = [''/w/app/a.ts''],
         languages = [(''typescript'', 10000)] \<rparr>)]"
proof -
  note d = startedTracker_rest(1)
  show eq: "savedTracker = recordFileEdit ''/w/app/a.ts'' activeTracker"
    by (simp add: savedTracker_def run_def d activeTracker_def startedTracker_def[symmetric])
  have m: "repoActivityMap activeTracker =
     [(''/w/app:main'',
       \<lparr> repoPath = ''/w/app'', repoName = ''app'', branchName = ''main'', remoteUrl = None,
         timeSpent = 10000, filesEdited = [],
         languages = [(''typescript'', 10000)] \<rparr>)]"
    by (simp add: activeTracker_def recordActivity_repoActivityMap startedTracker_state
        addTimeToRepo_def repoKey_def appRepo_def billActivity_def newActivity_def
        addLanguageTime_def)
  show "state savedTracker = (state startedTracker)\<lparr> lastActivityTime := 10000 \<rparr>"
    by (simp add: eq activeTracker_state)
  show "repoActivityMap savedTracker =
     [(''/w/app:main'',
       \<lparr> repoPath = ''/w/app'', repoName = ''app'', branchName = ''main'', remoteUrl = None,
         timeSpent = 10000, filesEdited = [''/w/app/a.ts''],
         languages = [(''typescript'', 10000)] \<rparr>)]"
    by (simp add: eq recordFileEdit_def activeTracker_state startedTracker_state m repoKey_def
        appRepo_def)
qed

lemma savedTracker_again:
  "repoActivityMap (recordFileEdit ''/w/app/a.ts'' savedTracker) = repoActivityMap savedTracker"
  "map (filesEdited \<circ> snd) (repoActivityMap (recordFileEdit ''/w/app/b.ts'' savedTracker))
     = [[''/w/app/a.ts'', ''/w/app/b.ts'']]"
  by (simp_all add: recordFileEdit_def savedTracker_eq(2,3) startedTracker_state repoKey_def
      appRepo_def)

lemma twoSessionDay_files:
  "map sumFilesEdited (dayRepositories (recalculateTotals twoSessionDay))
     = [[''/w/app/a.ts'', ''/w/app/b.ts'', ''/w/app/c.ts'']]"
  "map branchesWorkedOn (dayRepositories (recalculateTotals twoSessionDay)) = [[''main'', ''fix'']]"
  by (simp_all add: twoSessionDay_def recalculateTotals_eq sampleSession_def laterSession_def
      createEmptyDailyData_def aggregateRepo_def newSummary_def mergeIntoSummary_def
      pushIfAbsent_def)

lemma savedBeat_sessions:
  "map (\<lambda>s. map filesEdited (repositories s))
     (case currentDayData (storage savedBeat) of Some d \<Rightarrow> sessions d | None \<Rightarrow> [])
   = [[[''/w/app/a.ts'']]]"
proof -
  have f: "heartbeatInterval (recordActivity now t) = heartbeatInterval t"
    "heartbeatInterval (recordFileEdit p t) = heartbeatInterval t"
    "config (recordActivity now t) = config t"
    "config (recordFileEdit p t) = config t" for now p t
    by (simp_all add: recordActivity_def exitIdleState_def recordFileEdit_def Let_def
        split: option.splits)
  have h: "heartbeatInterval savedTracker" "storage savedTracker = emptyStorage"
    "currentSession savedTracker = createNewSession 0 ''session_1''"
    "config savedTracker = defaultConfig"
    by (simp_all add: savedTracker_eq(1) activeTracker_def f startedTracker_rest
        startedTracker_state)
  have d: "dateString 30000 = dateString 0"
    by (simp add: dateString_def msPerDay_def)
  show ?thesis
    by (simp add: savedBeat_def h d heartbeat_def Let_def savedTracker_eq(2,3) startedTracker_state
        saveCurrentSession_def updateSession_cache getTodayData_def emptyStorage_def
        loadDailyData_def createEmptyDailyData_def upsertSession_sessions defaultConfig_def
        createNewSession_def updateTimeCounters_def upsertSession_date)
qed

theorem filesEdited_distinct_witness:
  "liveFilesDistinct savedTracker
   \<and> map (filesEdited \<circ> snd) (repoActivityMap savedTracker) = [[''/w/app/a.ts'']]
   \<and> liveFilesDistinct (recordFileEdit ''/w/app/a.ts'' savedTracker)
   \<and> map (filesEdited \<circ> snd) (repoActivityMap (recordFileEdit ''/w/app/a.ts'' savedTracker))
       = [[''/w/app/a.ts'']]
   \<and> liveFilesDistinct (recordFileEdit ''/w/app/b.ts'' savedTracker)
   \<and> map (filesEdited \<circ> snd) (repoActivityMap (recordFileEdit ''/w/app/b.ts'' savedTracker))
       = [[''/w/app/a.ts'', ''/w/app/b.ts'']]
   \<and> list_all sessionFilesDistinct (sessions twoSessionDay)
   \<and> map (\<lambda>s. map filesEdited (repositories s)) (sessions twoSessionDay)
       = [[[''/w/app/a.ts'', ''/w/app/b.ts'']], [[''/w/app/b.ts'', ''/w/app/c.ts'']]]
   \<and> map sumFilesEdited (dayRepositories (recalculateTotals twoSessionDay))
       = [[''/w/app/a.ts'', ''/w/app/b.ts'', ''/w/app/c.ts'']]
   \<and> list_all (\<lambda>r. distinct (sumFilesEdited r)) (dayRepositories (recalculateTotals twoSessionDay))
   \<and> storageAll sessionFilesDistinct emptyStorage
   \<and> storageAll sessionFilesDistinct (storage savedBeat)
   \<and> map (\<lambda>s. map filesEdited (repositories s))
        (case currentDayData (storage savedBeat) of Some d \<Rightarrow> sessions d | None \<Rightarrow> [])
       = [[[''/w/app/a.ts'']]]"
proof -
  have ss: "sessions twoSessionDay = [sampleSession, laterSession]"
    by (simp add: twoSessionDay_def recalculateTotals_eq)
  have d: "list_all sessionFilesDistinct (sessions twoSessionDay)"
    by (simp add: ss sampleSession_def laterSession_def sessionFilesDistinct_def)
  have e: "storageAll sessionFilesDistinct emptyStorage"
    by (simp add: storageAll_def emptyStorage_def)
  have r1: "run (newTrackerService emptyStorage defaultConfig 0 True ''session_0'')
      [Start 0 appWorkspace ''session_1'', DidSaveTextDocument 10000 ''/w/app/a.ts'']
      = savedTracker"
    by (simp add: savedTracker_def freshTracker_def)
  have r2: "run (newTrackerService emptyStorage defaultConfig 0 True ''session_0'')
      [Start 0 appWorkspace ''session_1'', DidSaveTextDocument 10000 ''/w/app/a.ts'',
       Heartbeat 30000 True ''session_2'']
      = savedBeat"
    by (simp add: savedBeat_def savedTracker_def freshTracker_def run_def)
  note live = filesEdited_distinct [of emptyStorage defaultConfig 0 True "''session_0''"
      "[Start 0 appWorkspace ''session_1'', DidSaveTextDocument 10000 ''/w/app/a.ts'']",
      THEN conjunct1, unfolded r1]
  note again = filesEdited_distinct [of _ _ _ _ _ _ savedTracker "''/w/app/a.ts''",
      THEN conjunct2, THEN conjunct1, THEN mp, OF live]
  note other = filesEdited_distinct [of _ _ _ _ _ _ savedTracker "''/w/app/b.ts''",
      THEN conjunct2, THEN conjunct1, THEN mp, OF live]
  note summaries = filesEdited_distinct [of _ _ _ _ _ _ _ _ twoSessionDay,
      THEN conjunct2, THEN conjunct2, THEN conjunct1, THEN mp, OF d]
  note stored = filesEdited_distinct [of emptyStorage defaultConfig 0 True "''session_0''"
      "[Start 0 appWorkspace ''session_1'', DidSaveTextDocument 10000 ''/w/app/a.ts'',
        Heartbeat 30000 True ''session_2'']",
      THEN conjunct2, THEN conjunct2, THEN conjunct2, THEN mp, OF e, unfolded r2]
  have l: "list_all (\<lambda>r. distinct (sumFilesEdited r)) (dayRepositories (recalculateTotals twoSessionDay))"
    using summaries by (simp add: list_all_iff)
  have f: "map (\<lambda>s. map filesEdited (repositories s)) (sessions twoSessionDay)
       = [[[''/w/app/a.ts'', ''/w/app/b.ts'']], [[''/w/app/b.ts'', ''/w/app/c.ts'']]]"
    by (simp add: ss sampleSession_def laterSession_def)
  from live again other l stored d e f show ?thesis
    by (simp add: savedTracker_again savedTracker_eq(3) twoSessionDay_files savedBeat_sessions)
qed


section \<open>Retention\<close>

lemma cleanupLoop_takeWhile:
  "cleanupLoop cutoff parseDate unlinkThrows listing =
     filter (isExpired cutoff parseDate)
       (takeWhile (\<lambda>f. \<not> (isExpired cutoff parseDate f \<and> unlinkThrows f)) listing)"
  by (induction listing) (simp_all add: isExpired_def split: option.splits)

lemma cleanupLoop_subset:
  "f \<in> set (cleanupLoop cutoff parseDate unlinkThrows listing) \<Longrightarrow>
     f \<in> set listing \<and> isExpired cutoff parseDate f"
  unfolding cleanupLoop_takeWhile by (auto dest: set_takeWhileD)

lemma cleanupLoop_filter:
  assumes "\<forall>f \<in> set listing. \<not> unlinkThrows f"
  shows "cleanupLoop cutoff parseDate unlinkThrows listing =
     filter (isExpired cutoff parseDate) listing"
  using assms by (induction listing) (simp_all add: isExpired_def split: option.splits)

lemma day_floor_bounds:
  "(t div msPerDay) * msPerDay \<le> t" "t - msPerDay < (t div msPerDay) * msPerDay"
proof -
  have "t = (t div msPerDay) * msPerDay + t mod msPerDay" by simp
  moreover have "0 \<le> t mod msPerDay" "t mod msPerDay < msPerDay"
    by (simp_all add: msPerDay_def)
  ultimately show "(t div msPerDay) * msPerDay \<le> t" "t - msPerDay < (t div msPerDay) * msPerDay"
    by linarith+
qed

text \<open>The cutoff lies ninety times twenty-four hours before \<open>now\<close>, shifted by the
  difference of the two offsets.\<close>

lemma cutoffDate_eq:
  "cutoffDate tz now =
     now - 90 * msPerDay + (tz now True - tz (now + tz now True - 90 * msPerDay) False)"
proof -
  let ?l = "now + tz now True"
  have "MakeDate (Day ?l - 90) (TimeWithinDay ?l) = ?l - 90 * msPerDay"
    by (simp add: MakeDate_def Day_def TimeWithinDay_def algebra_simps)
  then show ?thesis
    by (simp add: cutoffDate_def setDateBack_def LocalTime_def UTC_def Let_def)
qed

lemma london_cutoff: "cutoffDate londonZone londonNow = 1710635400000"
  by (simp add: cutoffDate_eq londonZone_def londonNow_def msPerDay_def)

lemma json_keys:
  "replaceFirst ''.json'' [] ''2024-03-17.json'' = ''2024-03-17''"
  "replaceFirst ''.json'' [] ''2024-03-15.json'' = ''2024-03-15''"
  "replaceFirst ''.json'' [] ''1970-01-01.json'' = ''1970-01-01''"
  "replaceFirst ''.json'' [] ''1970-01-03.json'' = ''1970-01-03''"
  "replaceFirst ''.json'' [] ''notes.json'' = ''notes''"
  "replaceFirst ''.json'' [] ''readme.txt'' = ''readme.txt''"
  "endsWith ''2024-03-17.json'' ''.json''" "endsWith ''2024-03-15.json'' ''.json''"
  "endsWith ''1970-01-01.json'' ''.json''" "endsWith ''1970-01-03.json'' ''.json''"
  "endsWith ''notes.json'' ''.json''" "\<not> endsWith ''readme.txt'' ''.json''"
  by (simp_all add: endsWith_def)

text \<open>
  \<^bold>\<open>C8\<close> as stated fails where the local offset changes within the ninety days.  In
  London on 14 June 2024 at 23:30 UTC it is 00:30 of 15 June, summer time; ninety
  calendar days earlier is 00:30 of 17 March, winter time, which is 00:30 UTC.  The record
  of 17 March, dated 89 days before now, parses to 00:00 UTC of that day, lies before the
  cutoff and is unlinked.
\<close>

theorem retention_89_days_counterexample:
  "londonParseDate (replaceFirst ''.json'' [] ''2024-03-17.json'')
     = Some (dateString (londonNow - 89 * msPerDay) * msPerDay)
   \<and> cutoffDate londonZone londonNow = 1710635400000
   \<and> cleanupOldData londonZone londonNow londonParseDate (\<lambda>f. False)
        (Some [''2024-03-17.json'']) = [''2024-03-17.json'']"
proof -
  have "dateString (londonNow - 89 * msPerDay) * msPerDay = 1710633600000"
    by (simp add: dateString_def londonNow_def msPerDay_def)
  then show ?thesis
    by (simp add: cleanupOldData_def london_cutoff json_keys londonParseDate_def)
qed


text \<open>
  \<^bold>\<open>C8\<close> (as amended).  \<open>cleanupOldData\<close> unlinks the files whose name ends in
  \<open>.json\<close> and whose date key parses to an instant before the cutoff, in the order of
  the directory and as far as the first of them whose \<open>unlinkSync\<close> throws; all of
  them when none throws, and none when the directory cannot be read.  The cutoff is
  \<open>now\<close> moved back ninety days on the local calendar: \<open>now\<close> minus 90 times 24 hours,
  plus the local offset at \<open>now\<close>, minus the local offset at the cutoff.  When no unlink
  throws, a record dated 91 days before \<open>now\<close> (its key parses to the midnight UTC that
  begins the date of \<open>now - 91 d\<close>) is unlinked if the offset at the cutoff exceeds the
  offset at \<open>now\<close> by less than a day.  A record dated 89 days before \<open>now\<close> is kept if
  the offset at \<open>now\<close> is not greater than the offset at the cutoff, in particular if
  the two are equal.  A file whose date key does not parse is never unlinked.
\<close>

theorem cleanup_retention:
  "cleanupOldData tz now parseDate unlinkThrows (Some listing) =
     filter (isExpired (cutoffDate tz now) parseDate)
       (takeWhile (\<lambda>f. \<not> (isExpired (cutoffDate tz now) parseDate f \<and> unlinkThrows f)) listing)
   \<and> ((\<forall>f \<in> set listing. \<not> unlinkThrows f) \<longrightarrow>
        cleanupOldData tz now parseDate unlinkThrows (Some listing) =
          filter (isExpired (cutoffDate tz now) parseDate) listing)
   \<and> cleanupOldData tz now parseDate unlinkThrows None = []
   \<and> cutoffDate tz now =
        now - 90 * msPerDay + (tz now True - tz (now + tz now True - 90 * msPerDay) False)
   \<and> ((\<forall>f \<in> set listing. \<not> unlinkThrows f) \<and> file \<in> set listing \<and> endsWith file ''.json''
        \<and> parseDate (replaceFirst ''.json'' [] file) = Some (dateString (now - 91 * msPerDay) * msPerDay)
        \<and> tz (now + tz now True - 90 * msPerDay) False - tz now True < msPerDay
      \<longrightarrow> file \<in> set (cleanupOldData tz now parseDate unlinkThrows (Some listing)))
   \<and> (parseDate (replaceFirst ''.json'' [] file) = Some (dateString (now - 89 * msPerDay) * msPerDay)
        \<and> tz now True \<le> tz (now + tz now True - 90 * msPerDay) False
      \<longrightarrow> file \<notin> set (cleanupOldData tz now parseDate unlinkThrows dir))
   \<and> (parseDate (replaceFirst ''.json'' [] file) = None
      \<longrightarrow> file \<notin> set (cleanupOldData tz now parseDate unlinkThrows dir))"
proof (intro conjI impI)
  show "cleanupOldData tz now parseDate unlinkThrows (Some listing) =
     filter (isExpired (cutoffDate tz now) parseDate)
       (takeWhile (\<lambda>f. \<not> (isExpired (cutoffDate tz now) parseDate f \<and> unlinkThrows f)) listing)"
    by (simp add: cleanupOldData_def cleanupLoop_takeWhile)
next
  assume "\<forall>f \<in> set listing. \<not> unlinkThrows f"
  then show "cleanupOldData tz now parseDate unlinkThrows (Some listing) =
          filter (isExpired (cutoffDate tz now) parseDate) listing"
    by (simp add: cleanupOldData_def cleanupLoop_filter)
next
  show "cleanupOldData tz now parseDate unlinkThrows None = []"
    by (simp add: cleanupOldData_def)
next
  show "cutoffDate tz now =
        now - 90 * msPerDay + (tz now True - tz (now + tz now True - 90 * msPerDay) False)"
    by (rule cutoffDate_eq)
next
  assume a: "(\<forall>f \<in> set listing. \<not> unlinkThrows f) \<and> file \<in> set listing \<and> endsWith file ''.json''
        \<and> parseDate (replaceFirst ''.json'' [] file) = Some (dateString (now - 91 * msPerDay) * msPerDay)
        \<and> tz (now + tz now True - 90 * msPerDay) False - tz now True < msPerDay"
  then have all: "cleanupLoop (cutoffDate tz now) parseDate unlinkThrows listing
      = filter (isExpired (cutoffDate tz now) parseDate) listing"
    by (intro cleanupLoop_filter) simp
  have "dateString (now - 91 * msPerDay) * msPerDay \<le> now - 91 * msPerDay"
    using day_floor_bounds(1)[of "now - 91 * msPerDay"] by (simp add: dateString_def)
  with a have "dateString (now - 91 * msPerDay) * msPerDay < cutoffDate tz now"
    unfolding cutoffDate_eq by linarith
  with a have "isExpired (cutoffDate tz now) parseDate file"
    by (simp add: isExpired_def)
  with a all show "file \<in> set (cleanupOldData tz now parseDate unlinkThrows (Some listing))"
    by (simp add: cleanupOldData_def)
next
  assume a: "parseDate (replaceFirst ''.json'' [] file) = Some (dateString (now - 89 * msPerDay) * msPerDay)
        \<and> tz now True \<le> tz (now + tz now True - 90 * msPerDay) False"
  have "now - 89 * msPerDay - msPerDay < dateString (now - 89 * msPerDay) * msPerDay"
    using day_floor_bounds(2)[of "now - 89 * msPerDay"] by (simp add: dateString_def)
  with a have "\<not> dateString (now - 89 * msPerDay) * msPerDay < cutoffDate tz now"
    unfolding cutoffDate_eq by linarith
  with a have "\<not> isExpired (cutoffDate tz now) parseDate file"
    by (simp add: isExpired_def)
  then show "file \<notin> set (cleanupOldData tz now parseDate unlinkThrows dir)"
    by (auto simp: cleanupOldData_def split: option.splits dest!: cleanupLoop_subset)
next
  assume "parseDate (replaceFirst ''.json'' [] file) = None"
  then have "\<not> isExpired (cutoffDate tz now) parseDate file"
    by (simp add: isExpired_def)
  then show "file \<notin> set (cleanupOldData tz now parseDate unlinkThrows dir)"
    by (auto simp: cleanupOldData_def split: option.splits dest!: cleanupLoop_subset)
qed

theorem cleanup_retention_witness:
  "list_all (\<lambda>f. \<not> (\<lambda>f. False) f) sampleListing
   \<and> ''1970-01-01.json'' \<in> set sampleListing \<and> endsWith ''1970-01-01.json'' ''.json''
   \<and> sampleParseDate (replaceFirst ''.json'' [] ''1970-01-01.json'')
       = Some (dateString (sampleNow - 91 * msPerDay) * msPerDay)
   \<and> fixedZone (sampleNow + fixedZone sampleNow True - 90 * msPerDay) False
         - fixedZone sampleNow True < msPerDay
   \<and> sampleParseDate (replaceFirst ''.json'' [] ''1970-01-03.json'')
       = Some (dateString (sampleNow - 89 * msPerDay) * msPerDay)
   \<and> fixedZone sampleNow True \<le> fixedZone (sampleNow + fixedZone sampleNow True - 90 * msPerDay) False
   \<and> sampleParseDate (replaceFirst ''.json'' [] ''notes.json'') = None
   \<and> cleanupOldData fixedZone sampleNow sampleParseDate (\<lambda>f. False) (Some sampleListing)
       = [''1970-01-01.json'']
   \<and> ''1970-01-01.json''
       \<in> set (cleanupOldData fixedZone sampleNow sampleParseDate (\<lambda>f. False) (Some sampleListing))
   \<and> ''1970-01-03.json''
       \<notin> set (cleanupOldData fixedZone sampleNow sampleParseDate (\<lambda>f. False) (Some sampleListing))
   \<and> ''notes.json''
       \<notin> set (cleanupOldData fixedZone sampleNow sampleParseDate (\<lambda>f. False) (Some sampleListing))
   \<and> cleanupOldData fixedZone sampleNow sampleParseDate (\<lambda>f. f = ''1970-01-01.json'')
        (Some sampleListing) = []
   \<and> londonParseDate (replaceFirst ''.json'' [] ''2024-03-15.json'')
       = Some (dateString (londonNow - 91 * msPerDay) * msPerDay)
   \<and> londonZone (londonNow + londonZone londonNow True - 90 * msPerDay) False
         - londonZone londonNow True < msPerDay
   \<and> ''2024-03-15.json''
       \<in> set (cleanupOldData londonZone londonNow londonParseDate (\<lambda>f. False)
                (Some [''2024-03-15.json'', ''2024-03-17.json'']))"
proof -
  note inst = cleanup_retention [of fixedZone sampleNow sampleParseDate _ sampleListing]
  have d: "dateString (sampleNow - 91 * msPerDay) * msPerDay = 0"
    "dateString (sampleNow - 89 * msPerDay) * msPerDay = 2 * msPerDay"
    by (simp_all add: dateString_def sampleNow_def msPerDay_def)
  have p: "sampleParseDate ''1970-01-01'' = Some 0"
    "sampleParseDate ''1970-01-03'' = Some (2 * msPerDay)"
    "sampleParseDate ''notes'' = None" "sampleParseDate ''readme.txt'' = None"
    by (simp_all add: sampleParseDate_def)
  have z: "fixedZone (sampleNow + fixedZone sampleNow True - 90 * msPerDay) False
         - fixedZone sampleNow True < msPerDay"
    "fixedZone sampleNow True \<le> fixedZone (sampleNow + fixedZone sampleNow True - 90 * msPerDay) False"
    by (simp_all add: fixedZone_def msPerDay_def)
  have c: "cutoffDate fixedZone sampleNow = msPerDay + 43200000"
    by (simp add: cutoffDate_eq fixedZone_def sampleNow_def msPerDay_def)
  have x: "isExpired (msPerDay + 43200000) sampleParseDate ''1970-01-01.json''"
    "\<not> isExpired (msPerDay + 43200000) sampleParseDate ''notes.json''"
    "\<not> isExpired (msPerDay + 43200000) sampleParseDate ''1970-01-03.json''"
    "\<not> isExpired (msPerDay + 43200000) sampleParseDate ''readme.txt''"
    by (simp_all add: isExpired_def json_keys p msPerDay_def)
  have h: "\<forall>f \<in> set sampleListing. \<not> (\<lambda>f. False) f"
    by simp
  have all: "cleanupOldData fixedZone sampleNow sampleParseDate (\<lambda>f. False) (Some sampleListing)
       = [''1970-01-01.json'']"
    unfolding inst [THEN conjunct2, THEN conjunct1, THEN mp, OF h]
    by (simp add: sampleListing_def c x)
  have thrown: "cleanupOldData fixedZone sampleNow sampleParseDate (\<lambda>f. f = ''1970-01-01.json'')
        (Some sampleListing) = []"
    unfolding inst [THEN conjunct1]
    by (simp add: sampleListing_def c x)
  have old: "''1970-01-01.json''
       \<in> set (cleanupOldData fixedZone sampleNow sampleParseDate (\<lambda>f. False) (Some sampleListing))"
    by (rule inst [THEN conjunct2, THEN conjunct2, THEN conjunct2, THEN conjunct2,
          THEN conjunct1, THEN mp])
       (simp add: json_keys p d z sampleListing_def)
  have recent: "''1970-01-03.json''
       \<notin> set (cleanupOldData fixedZone sampleNow sampleParseDate (\<lambda>f. False) (Some sampleListing))"
    by (rule inst [THEN conjunct2, THEN conjunct2, THEN conjunct2, THEN conjunct2,
          THEN conjunct2, THEN conjunct1, THEN mp])
       (simp add: json_keys p d z)
  have unparsed: "''notes.json''
       \<notin> set (cleanupOldData fixedZone sampleNow sampleParseDate (\<lambda>f. False) (Some sampleListing))"
    by (rule inst [THEN conjunct2, THEN conjunct2, THEN conjunct2, THEN conjunct2,
          THEN conjunct2, THEN conjunct2, THEN mp])
       (simp add: json_keys p)
  have ld: "dateString (londonNow - 91 * msPerDay) * msPerDay = 1710460800000"
    by (simp add: dateString_def londonNow_def msPerDay_def)
  have lz: "londonZone (londonNow + londonZone londonNow True - 90 * msPerDay) False
         - londonZone londonNow True < msPerDay"
    by (simp add: londonZone_def londonNow_def msPerDay_def)
  have london: "''2024-03-15.json''
       \<in> set (cleanupOldData londonZone londonNow londonParseDate (\<lambda>f. False)
                (Some [''2024-03-15.json'', ''2024-03-17.json'']))"
    by (rule cleanup_retention [of londonZone londonNow londonParseDate "\<lambda>f. False"
          "[''2024-03-15.json'', ''2024-03-17.json'']" "''2024-03-15.json''",
          THEN conjunct2, THEN conjunct2, THEN conjunct2, THEN conjunct2,
          THEN conjunct1, THEN mp])
       (simp add: json_keys londonParseDate_def ld lz)
  from all thrown old recent unparsed london lz ld z show ?thesis
    by (simp add: json_keys d p sampleListing_def londonParseDate_def)
qed


end
